theory Spec2Isabelle
  imports Main "HOL-Library.Word"
begin

unbundle bit_operations_syntax

section \<open>Machine integers and errno values\<close>

text \<open>
  The C code computes block numbers and counters in \<open>uint32_t\<close> and \<open>uint64_t\<close>.
  They are modelled as natural numbers; wherever the code does arithmetic on them the
  wrap-around is written out with the helpers below.
\<close>

type_synonym byte = "8 word"

definition u32 :: "nat \<Rightarrow> nat" where
  "u32 x = x mod 4294967296"

definition u32_sub :: "nat \<Rightarrow> nat \<Rightarrow> nat" where
  "u32_sub a b = (a mod 4294967296 + 4294967296 - b mod 4294967296) mod 4294967296"

definition u64 :: "nat \<Rightarrow> nat" where
  "u64 x = x mod 18446744073709551616"

definition u64_sub :: "nat \<Rightarrow> nat \<Rightarrow> nat" where
  "u64_sub a b =
     (a mod 18446744073709551616 + 18446744073709551616 - b mod 18446744073709551616)
       mod 18446744073709551616"

text \<open>Linux errno values; the functions return them negated.\<close>

definition EPERM :: int where "EPERM = 1"
definition EIO :: int where "EIO = 5"
definition EINVAL :: int where "EINVAL = 22"
definition ENOSPC :: int where "ENOSPC = 28"
definition ERANGE :: int where "ERANGE = 34"

section \<open>Bitmap codec\<close>

text \<open>
  \<open>rgrp.c\<close> calls \<open>gfs2_testbit\<close>, \<open>gfs2_setbit\<close> and \<open>gfs2_bitfit\<close> of \<open>bits.c\<close>,
  and uses \<open>GFS2_NBBY\<close> and the \<open>GFS2_BLKST_*\<close> states of the on-disk header. Neither
  file is part of the sources at hand, so the three functions are modelled from the
  specification of the bitmap codec. A buffer is a list of bytes; the C pointer
  \<open>buffer + offset\<close> is the pair of the list and the offset.
\<close>

definition GFS2_NBBY :: nat where
  \<comment> \<open>Modelled from the spec: the constant \<open>GFS2_NBBY\<close> is missing; a bitmap cell has
      2 bits, so a byte holds 4 cells.\<close>
  "GFS2_NBBY = 4"

definition GFS2_BLKST_FREE :: byte where
  \<comment> \<open>Modelled from the spec: the block states are missing; 0 = free, 1 = used data,
      2 = reserved, 3 = used metadata or dinode.\<close>
  "GFS2_BLKST_FREE = 0"

definition GFS2_BLKST_USED :: byte where
  \<comment> \<open>Modelled from the spec: see \<open>GFS2_BLKST_FREE\<close>.\<close>
  "GFS2_BLKST_USED = 1"

definition GFS2_BLKST_INVALID :: byte where
  \<comment> \<open>Modelled from the spec: see \<open>GFS2_BLKST_FREE\<close>.\<close>
  "GFS2_BLKST_INVALID = 2"

definition GFS2_BLKST_DINODE :: byte where
  \<comment> \<open>Modelled from the spec: see \<open>GFS2_BLKST_FREE\<close>.\<close>
  "GFS2_BLKST_DINODE = 3"

definition gfs2_testbit :: "byte list \<Rightarrow> nat \<Rightarrow> nat \<Rightarrow> nat \<Rightarrow> byte" where
  \<comment> \<open>Modelled from the spec: \<open>gfs2_testbit\<close> is missing; the state query of the
      round-trip property. Cell \<open>block\<close> lives in byte \<open>block div 4\<close>, at bit
      \<open>2 * (block mod 4)\<close>.\<close>
  "gfs2_testbit buffer off buflen block =
     drop_bit ((block mod GFS2_NBBY) * 2) (buffer ! (off + block div GFS2_NBBY)) AND 3"

definition gfs2_setbit :: "byte list \<Rightarrow> nat \<Rightarrow> nat \<Rightarrow> nat \<Rightarrow> byte \<Rightarrow> byte list" where
  \<comment> \<open>Modelled from the spec: \<open>gfs2_setbit\<close> is missing; \<open>set_state\<close> writes the 2-bit
      cell and always succeeds on valid offsets. The caller is responsible for the
      bounds: an offset outside the segment leaves the buffer as it is.\<close>
  "gfs2_setbit buffer off buflen block new_state =
     (if block div GFS2_NBBY < buflen
      then (let bit = (block mod GFS2_NBBY) * 2;
                b = buffer ! (off + block div GFS2_NBBY)
            in buffer[off + block div GFS2_NBBY :=
                        (b AND NOT (push_bit bit 3)) OR push_bit bit new_state])
      else buffer)"

definition gfs2_bitfit :: "byte list \<Rightarrow> nat \<Rightarrow> nat \<Rightarrow> nat \<Rightarrow> byte \<Rightarrow> nat option" where
  \<comment> \<open>Modelled from the spec: \<open>gfs2_bitfit\<close> is missing; \<open>find_free\<close> is a linear scan
      from \<open>goal\<close> forward, wrapping to the segment start, that returns the first cell
      equal to the state: the lowest offset at or after the goal, else the lowest
      offset overall. \<open>None\<close> is \<open>BFITNOENT\<close>.\<close>
  "gfs2_bitfit buffer off buflen goal old_state =
     (case find (\<lambda>b. gfs2_testbit buffer off buflen b = old_state)
                [goal..<buflen * GFS2_NBBY] of
        Some b \<Rightarrow> Some b
      | None \<Rightarrow> find (\<lambda>b. gfs2_testbit buffer off buflen b = old_state)
                     [0..<min goal (buflen * GFS2_NBBY)])"

definition memcpy :: "byte list \<Rightarrow> nat \<Rightarrow> byte list \<Rightarrow> nat \<Rightarrow> nat \<Rightarrow> byte list" where
  \<comment> \<open>\<open>memcpy(dst + doff, src + soff, len)\<close>; both ranges must lie inside their
      buffers, which the theorems below assume.\<close>
  "memcpy dst doff src soff len =
     take doff dst @ take len (drop soff src) @ drop (doff + len) dst"

section \<open>Resource group descriptors\<close>

record gfs2_bitmap =
  bi_bh :: "byte list"
  bi_clone :: "byte list option"
  bi_offset :: nat
  bi_start :: nat
  bi_len :: nat

record gfs2_rindex =
  ri_addr :: nat
  ri_data0 :: nat
  ri_data :: nat

record gfs2_rgrp =
  rg_free :: nat
  rg_dinodes :: nat

text \<open>
  \<open>rd_bits\<close> is the array of \<open>ri_length\<close> bitmap descriptors that \<open>compute_bitstructs\<close>
  allocates; the model reads \<open>ri_length\<close> as the length of the list. \<open>bi_bh\<close> is the
  \<open>b_data\<close> of the segment's buffer head, \<open>bi_clone\<close> is \<open>None\<close> for a null clone.
\<close>

record gfs2_rgrpd =
  rd_ri :: gfs2_rindex
  rd_rg :: gfs2_rgrp
  rd_bits :: "gfs2_bitmap list"
  rd_free_clone :: nat
  rd_last_alloc_data :: nat
  rd_last_alloc_meta :: nat

record gfs2_alloc =
  al_requested :: nat
  al_alloced :: nat
  al_rgd :: "nat option"

definition bitmap_bytes :: "gfs2_bitmap \<Rightarrow> byte list \<Rightarrow> byte list" where
  \<comment> \<open>The \<open>bi_len\<close> bitmap bytes of a buffer, at \<open>bi_offset\<close>.\<close>
  "bitmap_bytes bi buf = take (bi_len bi) (drop (bi_offset bi) buf)"

definition bitmap_ok :: "gfs2_bitmap \<Rightarrow> bool" where
  \<comment> \<open>The bitmap bytes lie inside the live buffer and inside the clone, if there is
      one (\<open>rgblk_free\<close> allocates the clone with the buffer's size).\<close>
  "bitmap_ok bi =
     (bi_offset bi + bi_len bi \<le> length (bi_bh bi) \<and>
      (case bi_clone bi of None \<Rightarrow> True
       | Some c \<Rightarrow> bi_offset bi + bi_len bi \<le> length c))"

definition rgd_buffers_ok :: "gfs2_rgrpd \<Rightarrow> bool" where
  "rgd_buffers_ok rgd = list_all bitmap_ok (rd_bits rgd)"

subsection \<open>gfs2_rgrp_repolish_clones\<close>

definition repolish_bitmap :: "gfs2_bitmap \<Rightarrow> gfs2_bitmap" where
  \<comment> \<open>The body of the loop: a segment without a clone is skipped.\<close>
  "repolish_bitmap bi =
     (case bi_clone bi of
        None \<Rightarrow> bi
      | Some c \<Rightarrow>
          bi\<lparr>bi_clone := Some (memcpy c (bi_offset bi) (bi_bh bi) (bi_offset bi) (bi_len bi))\<rparr>)"

function repolish_loop :: "gfs2_bitmap list \<Rightarrow> nat \<Rightarrow> nat \<Rightarrow> gfs2_bitmap list" where
  "repolish_loop bits x len =
     (if x < len then repolish_loop (bits[x := repolish_bitmap (bits ! x)]) (Suc x) len
      else bits)"
  by pat_completeness auto
termination
  by (relation "measure (\<lambda>(bits, x, len). len - x)") auto

declare repolish_loop.simps [simp del]

definition gfs2_rgrp_repolish_clones :: "gfs2_rgrpd \<Rightarrow> gfs2_rgrpd" where
  "gfs2_rgrp_repolish_clones rgd =
     rgd\<lparr>rd_bits := repolish_loop (rd_bits rgd) 0 (length (rd_bits rgd)),
         rd_free_clone := rg_free (rd_rg rgd)\<rparr>"

definition try_rgrp_fit :: "gfs2_rgrpd \<Rightarrow> nat \<Rightarrow> gfs2_alloc \<Rightarrow> int \<times> gfs2_alloc" where
  \<comment> \<open>The free-count query: \<open>i\<close> is the position of \<open>rgd\<close> in the resource index, which
      stands for the pointer stored in \<open>al_rgd\<close>.\<close>
  "try_rgrp_fit rgd i al =
     (if al_requested al \<le> rd_free_clone rgd then (1, al\<lparr>al_rgd := Some i\<rparr>) else (0, al))"

section \<open>Volume and inode state\<close>

text \<open>
  The resource index \<open>sd_rindex_list\<close> is the list \<open>sd_rgrpds\<close>, in index order; a
  pointer to a descriptor is its position in that list. The recent list and the forward
  cursor hold such positions. \<open>sd_journals\<close> is what \<open>gfs2_jindex_size\<close> returns and
  \<open>sd_jid\<close> is \<open>sd_jdesc->jd_jid\<close>. \<open>sd_withdrawn\<close> records that \<open>gfs2_lm_withdraw\<close>
  was called, the fatal path of the volume. \<open>sd_complain\<close> is
  \<open>gfs2_tune_get(sdp, gt_complain_secs) * HZ\<close>.
\<close>

record gfs2_sbd =
  sd_rgrpds :: "gfs2_rgrpd list"
  sd_rgrps :: nat
  sd_journals :: nat
  sd_jid :: nat
  sd_rindex_recent_list :: "nat list"
  sd_rindex_forward :: "nat option"
  sd_withdrawn :: bool
  sd_last_warning :: "64 word"
  sd_complain :: "64 word"
  ar_debug :: bool

text \<open>
  The fields of the in-core inode that the two files use. \<open>di_eattr\<close> is the block
  number of the attribute store, 0 when there is none; \<open>i_immutable\<close> is
  \<open>IS_IMMUTABLE(ip->i_vnode)\<close>. \<open>di_blocks\<close> and \<open>di_ctime\<close> are \<open>uint64_t\<close>,
  \<open>di_mode\<close> is \<open>uint32_t\<close>.
\<close>

record gfs2_inode =
  i_alloc :: "gfs2_alloc option"
  i_last_rg_alloc :: nat
  di_goal_data :: nat
  di_goal_meta :: nat
  di_eattr :: nat
  di_flags :: "32 word"
  i_immutable :: bool
  di_blocks :: nat
  di_mode :: "32 word"
  di_ctime :: nat

subsection \<open>Assertions of util.c\<close>

definition time_before :: "64 word \<Rightarrow> 64 word \<Rightarrow> bool" where
  \<comment> \<open>The kernel's \<open>time_before(a, b)\<close>: \<open>(long)a - (long)b < 0\<close>.\<close>
  "time_before a b = (sint (a - b) < 0)"

definition gfs2_assert_withdraw :: "gfs2_sbd \<Rightarrow> bool \<Rightarrow> int \<times> gfs2_sbd" where
  \<comment> \<open>\<open>gfs2_assert_withdraw_i\<close> behind its macro: 0 when the assertion holds, else the
      volume is withdrawn; -1 when this call withdrew it, -2 when it was withdrawn
      already.\<close>
  "gfs2_assert_withdraw sdp assertion =
     (if assertion then (0, sdp)
      else (if sd_withdrawn sdp then - 2 else - 1, sdp\<lparr>sd_withdrawn := True\<rparr>))"

definition gfs2_assert_warn :: "64 word \<Rightarrow> gfs2_sbd \<Rightarrow> bool \<Rightarrow> (int \<times> gfs2_sbd) option" where
  \<comment> \<open>\<open>gfs2_assert_warn_i\<close> behind its macro, at time \<open>jiffies\<close>: 0 when the assertion
      holds; -2 when a warning was printed less than \<open>sd_complain\<close> ago; otherwise the
      warning is printed, and the result is -1, or \<open>BUG()\<close> (\<open>None\<close>) under the debug
      mount option. The volume is never withdrawn here.\<close>
  "gfs2_assert_warn jiffies sdp assertion =
     (if assertion then Some (0, sdp)
      else if time_before jiffies (sd_last_warning sdp + sd_complain sdp) then Some (- 2, sdp)
      else if ar_debug sdp then None
      else Some (- 1, sdp\<lparr>sd_last_warning := jiffies\<rparr>))"

section \<open>Block allocation in a resource group\<close>

definition rgrp_contains_block :: "gfs2_rindex \<Rightarrow> nat \<Rightarrow> bool" where
  "rgrp_contains_block ri block =
     (let first = ri_data0 ri; last = u64 (first + ri_data ri)
      in first \<le> block \<and> block < last)"

subsection \<open>rgblk_search\<close>

function rgblk_goal_buf :: "gfs2_bitmap list \<Rightarrow> nat \<Rightarrow> nat \<Rightarrow> nat" where
  \<comment> \<open>The first loop: the first segment whose end lies after \<open>goal\<close>; the number of
      segments when there is none.\<close>
  "rgblk_goal_buf bits goal buf =
     (if buf < length bits
      then (if goal < u32 ((bi_start (bits ! buf) + bi_len (bits ! buf)) * GFS2_NBBY)
            then buf
            else rgblk_goal_buf bits goal (Suc buf))
      else buf)"
  by pat_completeness auto
termination
  by (relation "measure (\<lambda>(bits, goal, buf). length bits - buf)") auto

declare rgblk_goal_buf.simps [simp del]

definition rgblk_fit :: "gfs2_bitmap \<Rightarrow> nat \<Rightarrow> byte \<Rightarrow> nat option" where
  \<comment> \<open>One segment scan: in the clone when there is one, else in the live buffer.\<close>
  "rgblk_fit bi goal old_state =
     (case bi_clone bi of
        Some c \<Rightarrow> gfs2_bitfit c (bi_offset bi) (bi_len bi) goal old_state
      | None \<Rightarrow> gfs2_bitfit (bi_bh bi) (bi_offset bi) (bi_len bi) goal old_state)"

function rgblk_scan ::
  "gfs2_bitmap list \<Rightarrow> byte \<Rightarrow> nat \<Rightarrow> nat \<Rightarrow> nat \<Rightarrow> nat option \<times> nat \<times> nat" where
  \<comment> \<open>The second loop, \<open>for (x = 0; x <= length; x++)\<close>: the result is \<open>blk\<close>
      (\<open>None\<close> for \<open>BFITNOENT\<close>), \<open>buf\<close> and \<open>x\<close> at the exit of the loop.\<close>
  "rgblk_scan bits old_state buf goal x =
     (if x \<le> length bits
      then (case rgblk_fit (bits ! buf) goal old_state of
              Some blk \<Rightarrow> (Some blk, buf, x)
            | None \<Rightarrow> rgblk_scan bits old_state ((buf + 1) mod length bits) 0 (Suc x))
      else (None, buf, x))"
  by pat_completeness auto
termination
  by (relation "measure (\<lambda>(bits, old_state, buf, goal, x). Suc (length bits) - x)") auto

declare rgblk_scan.simps [simp del]

definition rgblk_search :: "gfs2_rgrpd \<Rightarrow> nat \<Rightarrow> byte \<Rightarrow> byte \<Rightarrow> (nat \<times> gfs2_rgrpd \<times> bool) option" where
  \<comment> \<open>\<open>None\<close>: the \<open>gfs2_assert\<close> on \<open>buf < length\<close> panics. Otherwise the block number,
      the descriptor with the cell set, and whether the \<open>gfs2_assert_withdraw\<close> on
      \<open>x <= length\<close> fired (then \<open>blk\<close> is 0).\<close>
  "rgblk_search rgd goal old_state new_state =
     (let bits = rd_bits rgd;
          buf0 = rgblk_goal_buf bits goal 0
      in if \<not> buf0 < length bits then None
         else
           (let goal' = u32_sub goal (u32 (bi_start (bits ! buf0) * GFS2_NBBY));
                (found, buf, x) = rgblk_scan bits old_state buf0 goal' 0;
                failed = \<not> x \<le> length bits;
                blk = (case found of Some b \<Rightarrow> if failed then 0 else b | None \<Rightarrow> 0);
                bi = bits ! buf;
                bi' = bi\<lparr>bi_bh := gfs2_setbit (bi_bh bi) (bi_offset bi) (bi_len bi) blk new_state,
                        bi_clone := map_option
                          (\<lambda>c. gfs2_setbit c (bi_offset bi) (bi_len bi) blk new_state)
                          (bi_clone bi)\<rparr>
            in Some (u32 (bi_start bi * GFS2_NBBY + blk),
                     rgd\<lparr>rd_bits := bits[buf := bi']\<rparr>,
                     failed)))"

subsection \<open>The allocation entry points and the reservation\<close>

text \<open>
  The transaction, statfs and quota calls of the entry points are calls into other
  subsystems and leave the state modelled here alone; \<open>gfs2_rgrp_out\<close> serialises
  \<open>rd_rg\<close> into the header bytes of the first buffer, in front of \<open>bi_offset\<close>, and is
  not modelled either. \<open>None\<close> is a null dereference of \<open>i_alloc\<close> or \<open>al_rgd\<close>, or the
  panic of \<open>rgblk_search\<close>.
\<close>

definition gfs2_alloc_get ::
  "64 word \<Rightarrow> gfs2_sbd \<Rightarrow> gfs2_inode \<Rightarrow> (gfs2_alloc \<times> gfs2_sbd \<times> gfs2_inode) option" where
  \<comment> \<open>At time \<open>jiffies\<close>. \<open>gfs2_assert_warn(!al)\<close> on a reservation that is still there
      warns, or is the \<open>BUG()\<close> under the debug mount option (\<open>None\<close>); then
      \<open>kzalloc\<close> with \<open>__GFP_NOFAIL\<close>: every field of the new reservation is zero.\<close>
  "gfs2_alloc_get jiffies sdp ip =
     (case gfs2_assert_warn jiffies sdp (i_alloc ip = None) of
        None \<Rightarrow> None
      | Some (w, sdp') \<Rightarrow>
          (let al = \<lparr>al_requested = 0, al_alloced = 0, al_rgd = None\<rparr>
           in Some (al, sdp', ip\<lparr>i_alloc := Some al\<rparr>)))"

definition gfs2_alloc_put ::
  "64 word \<Rightarrow> gfs2_sbd \<Rightarrow> gfs2_inode \<Rightarrow> (gfs2_sbd \<times> gfs2_inode) option" where
  \<comment> \<open>At time \<open>jiffies\<close>. \<open>if (gfs2_assert_warn(al)) return;\<close> and then the
      reservation is dropped. \<open>None\<close> is the \<open>BUG()\<close> of the warning.\<close>
  "gfs2_alloc_put jiffies sdp ip =
     (case gfs2_assert_warn jiffies sdp (i_alloc ip \<noteq> None) of
        None \<Rightarrow> None
      | Some (w, sdp') \<Rightarrow>
          if w \<noteq> 0 then Some (sdp', ip) else Some (sdp', ip\<lparr>i_alloc := None\<rparr>))"

definition alloc_commit ::
  "gfs2_sbd \<Rightarrow> gfs2_inode \<Rightarrow> gfs2_alloc \<Rightarrow> nat \<Rightarrow> gfs2_rgrpd \<Rightarrow> bool \<Rightarrow> nat \<Rightarrow>
   gfs2_sbd \<times> gfs2_inode" where
  \<comment> \<open>The common tail of the three entry points: \<open>gfs2_assert_withdraw(rg_free)\<close>,
      \<open>rg_free--\<close>, \<open>rg_dinodes += d\<close>, \<open>al_alloced++\<close> and \<open>rd_free_clone--\<close>, all in
      \<open>uint32_t\<close>.\<close>
  "alloc_commit sdp ip al i rgd failed d =
     (let sdp1 = (if failed then snd (gfs2_assert_withdraw sdp False) else sdp);
          sdp2 = snd (gfs2_assert_withdraw sdp1 (rg_free (rd_rg rgd) \<noteq> 0));
          rg = (rd_rg rgd)\<lparr>rg_free := u32_sub (rg_free (rd_rg rgd)) 1,
                           rg_dinodes := u32 (rg_dinodes (rd_rg rgd) + d)\<rparr>;
          rgd' = rgd\<lparr>rd_rg := rg, rd_free_clone := u32_sub (rd_free_clone rgd) 1\<rparr>;
          al' = al\<lparr>al_alloced := u32 (al_alloced al + 1)\<rparr>
      in (sdp2\<lparr>sd_rgrpds := (sd_rgrpds sdp2)[i := rgd']\<rparr>, ip\<lparr>i_alloc := Some al'\<rparr>))"

definition gfs2_alloc_data :: "gfs2_sbd \<Rightarrow> gfs2_inode \<Rightarrow> (nat \<times> gfs2_sbd \<times> gfs2_inode) option" where
  "gfs2_alloc_data sdp ip =
     (case i_alloc ip of None \<Rightarrow> None | Some al \<Rightarrow>
      case al_rgd al of None \<Rightarrow> None | Some i \<Rightarrow>
      if \<not> i < length (sd_rgrpds sdp) then None
      else
        (let rgd = sd_rgrpds sdp ! i;
             goal = (if rgrp_contains_block (rd_ri rgd) (di_goal_data ip)
                     then u32 (u64_sub (di_goal_data ip) (ri_data0 (rd_ri rgd)))
                     else rd_last_alloc_data rgd)
         in case rgblk_search rgd goal GFS2_BLKST_FREE GFS2_BLKST_USED of
              None \<Rightarrow> None
            | Some (blk, rgd1, failed) \<Rightarrow>
                (let rgd2 = rgd1\<lparr>rd_last_alloc_data := blk\<rparr>;
                     block = u64 (ri_data0 (rd_ri rgd2) + blk);
                     ip1 = ip\<lparr>di_goal_data := block\<rparr>
                 in Some (block, alloc_commit sdp ip1 al i rgd2 failed 0))))"

definition gfs2_alloc_meta :: "gfs2_sbd \<Rightarrow> gfs2_inode \<Rightarrow> (nat \<times> gfs2_sbd \<times> gfs2_inode) option" where
  "gfs2_alloc_meta sdp ip =
     (case i_alloc ip of None \<Rightarrow> None | Some al \<Rightarrow>
      case al_rgd al of None \<Rightarrow> None | Some i \<Rightarrow>
      if \<not> i < length (sd_rgrpds sdp) then None
      else
        (let rgd = sd_rgrpds sdp ! i;
             goal = (if rgrp_contains_block (rd_ri rgd) (di_goal_meta ip)
                     then u32 (u64_sub (di_goal_meta ip) (ri_data0 (rd_ri rgd)))
                     else rd_last_alloc_meta rgd)
         in case rgblk_search rgd goal GFS2_BLKST_FREE GFS2_BLKST_USED of
              None \<Rightarrow> None
            | Some (blk, rgd1, failed) \<Rightarrow>
                (let rgd2 = rgd1\<lparr>rd_last_alloc_meta := blk\<rparr>;
                     block = u64 (ri_data0 (rd_ri rgd2) + blk);
                     ip1 = ip\<lparr>di_goal_meta := block\<rparr>
                 in Some (block, alloc_commit sdp ip1 al i rgd2 failed 0))))"

definition gfs2_alloc_di :: "gfs2_sbd \<Rightarrow> gfs2_inode \<Rightarrow> (nat \<times> gfs2_sbd \<times> gfs2_inode) option" where
  "gfs2_alloc_di sdp dip =
     (case i_alloc dip of None \<Rightarrow> None | Some al \<Rightarrow>
      case al_rgd al of None \<Rightarrow> None | Some i \<Rightarrow>
      if \<not> i < length (sd_rgrpds sdp) then None
      else
        (let rgd = sd_rgrpds sdp ! i
         in case rgblk_search rgd (rd_last_alloc_meta rgd) GFS2_BLKST_FREE GFS2_BLKST_DINODE of
              None \<Rightarrow> None
            | Some (blk, rgd1, failed) \<Rightarrow>
                (let rgd2 = rgd1\<lparr>rd_last_alloc_meta := blk\<rparr>;
                     block = u64 (ri_data0 (rd_ri rgd2) + blk)
                 in Some (block, alloc_commit sdp dip al i rgd2 failed 1))))"

definition gfs2_inplace_release :: "64 word \<Rightarrow> gfs2_sbd \<Rightarrow> gfs2_inode \<Rightarrow> (int \<times> gfs2_sbd \<times> gfs2_inode) option" where
  \<comment> \<open>At time \<open>jiffies\<close>. The C function returns nothing; the integer is the value of
      its \<open>gfs2_assert_warn\<close>, kept to tell what the check did. \<open>None\<close> is a null
      \<open>i_alloc\<close> or the \<open>BUG()\<close> of the warning.\<close>
  "gfs2_inplace_release jiffies sdp ip =
     (case i_alloc ip of None \<Rightarrow> None | Some al \<Rightarrow>
      case gfs2_assert_warn jiffies sdp (al_alloced al \<le> al_requested al) of
        None \<Rightarrow> None
      | Some (w, sdp') \<Rightarrow> Some (w, sdp', ip\<lparr>i_alloc := Some (al\<lparr>al_rgd := None\<rparr>)\<rparr>))"

section \<open>Choosing a resource group\<close>

text \<open>
  The lock layer is a collaborator: \<open>gfs2_glock_nq_init\<close> on the lock of a resource
  group is a function \<open>nq\<close> of the number of the attempt (the attempts of one call of
  \<open>get_local_rgrp\<close> are counted from 0), the group and the flags. Its result is 0, the
  code \<open>GLR_TRYFAILED\<close> of a failed non-blocking acquire, or any other error.
  \<open>gfs2_glock_dq_uninit\<close> changes nothing that is modelled.
\<close>

definition GLR_TRYFAILED :: int where
  \<comment> \<open>Modelled from the spec: the constant of \<open>glock.h\<close> is missing; the result of a non-blocking acquire that fails at once. Only its being different from 0 matters.\<close>
  "GLR_TRYFAILED = 13"

definition LM_FLAG_TRY :: int where
  \<comment> \<open>Modelled from the spec: the constant of the lock module interface is missing; the try flag of \<open>acquire\<close>. Only its being different from 0 matters.\<close>
  "LM_FLAG_TRY = 1"

type_synonym glock_nq = "nat \<Rightarrow> nat \<Rightarrow> int \<Rightarrow> int"

definition rgrpd_next_wrap :: "nat \<Rightarrow> nat \<Rightarrow> nat" where
  \<comment> \<open>\<open>rgd = gfs2_rgrpd_get_next(rgd); if (!rgd) rgd = gfs2_rgrpd_get_first(sdp);\<close> for a descriptor of a non-empty index of \<open>n\<close> groups.\<close>
  "rgrpd_next_wrap n rgd = (if Suc rgd < n then Suc rgd else 0)"

definition scan_dist :: "nat \<Rightarrow> nat \<Rightarrow> nat \<Rightarrow> nat" where
  \<comment> \<open>The number of groups between \<open>rgd\<close> and the end of its circuit; used to show that the loop below terminates.\<close>
  "scan_dist n begin_rgd rgd = (if rgd < begin_rgd then begin_rgd - rgd - 1 else begin_rgd + n - rgd - 1)"

function full_list_loop ::
  "glock_nq \<Rightarrow> gfs2_rgrpd list \<Rightarrow> gfs2_alloc \<Rightarrow> nat \<Rightarrow> nat \<Rightarrow> int \<Rightarrow> nat \<Rightarrow> nat \<Rightarrow> nat \<Rightarrow>
   (int \<times> nat option \<times> gfs2_alloc \<times> nat) option" where
  \<comment> \<open>The \<open>for (;;)\<close> loop of \<open>get_local_rgrp\<close>. The result is the error, the chosen
      group (at \<open>goto out\<close>), the reservation and the number of the next attempt.
      \<open>None\<close>: \<open>rgd\<close> or \<open>begin\<close> is not a descriptor of the index, which the code
      never sees.\<close>
  "full_list_loop nq rgds al begin_rgd rgd flags skipped loops t =
     (if \<not> (rgd < length rgds \<and> begin_rgd < length rgds) then None
      else
        (let error = nq t rgd flags in
         if error = 0 \<and> fst (try_rgrp_fit (rgds ! rgd) rgd al) \<noteq> 0
         then Some (0, Some rgd, snd (try_rgrp_fit (rgds ! rgd) rgd al), Suc t)
         else if error \<noteq> 0 \<and> error \<noteq> GLR_TRYFAILED
         then Some (error, None, al, Suc t)
         else
           (let skipped' = (if error = GLR_TRYFAILED then Suc skipped else skipped);
                rgd' = rgrpd_next_wrap (length rgds) rgd
            in if rgd' = begin_rgd
               then (if 2 \<le> Suc loops \<or> skipped' = 0
                     then Some (- ENOSPC, None, al, Suc t)
                     else full_list_loop nq rgds al begin_rgd rgd' 0 skipped' (Suc loops) (Suc t))
               else full_list_loop nq rgds al begin_rgd rgd' flags skipped' loops (Suc t))))"
  by pat_completeness auto
termination
proof (relation "measure (\<lambda>(nq, rgds, al, begin_rgd, rgd, flags, skipped, loops, t).
          (2 - loops) * length rgds + scan_dist (length rgds) begin_rgd rgd)", goal_cases)
  case 1
  then show ?case by simp
next
  case (2 nq rgds al begin_rgd rgd flags skipped loops t)
  then have "loops = 0" by auto
  with 2 show ?case
    by (auto simp: rgrpd_next_wrap_def scan_dist_def split: if_splits)
next
  case (3 nq rgds al begin_rgd rgd flags skipped loops t)
  then show ?case
    by (auto simp: rgrpd_next_wrap_def scan_dist_def split: if_splits)
qed

declare full_list_loop.simps [simp del]

subsection \<open>The scan as the specification words it\<close>

text \<open>
  One full circuit over the groups in the given order, with the given lock flags: it
  ends at the first group that is locked and fits (\<open>CFound\<close>), at the first lock error
  other than a failed try (\<open>CAbort\<close>), or after the last group, with the number of
  groups skipped so far (\<open>CDone\<close>). \<open>two_circuit_scan\<close> is the policy of the
  specification: a first circuit with the try flag, and, when it completes with skips,
  one more circuit with blocking locks.
\<close>

datatype circuit_result = CFound nat gfs2_alloc | CAbort int | CDone nat

fun circuit ::
  "glock_nq \<Rightarrow> gfs2_rgrpd list \<Rightarrow> gfs2_alloc \<Rightarrow> int \<Rightarrow> nat list \<Rightarrow> nat \<Rightarrow> nat \<Rightarrow>
   circuit_result \<times> nat" where
  "circuit nq rgds al flags [] skipped t = (CDone skipped, t)"
| "circuit nq rgds al flags (g # gs) skipped t =
     (let error = nq t g flags in
      if error = 0 \<and> fst (try_rgrp_fit (rgds ! g) g al) \<noteq> 0
      then (CFound g (snd (try_rgrp_fit (rgds ! g) g al)), Suc t)
      else if error \<noteq> 0 \<and> error \<noteq> GLR_TRYFAILED
      then (CAbort error, Suc t)
      else circuit nq rgds al flags gs
             (if error = GLR_TRYFAILED then Suc skipped else skipped) (Suc t))"

definition circuit_order :: "nat \<Rightarrow> nat \<Rightarrow> nat list" where
  "circuit_order n begin_rgd = map (\<lambda>i. (begin_rgd + i) mod n) [0..<n]"

definition two_circuit_scan ::
  "glock_nq \<Rightarrow> gfs2_rgrpd list \<Rightarrow> gfs2_alloc \<Rightarrow> nat \<Rightarrow> nat \<Rightarrow> int \<times> nat option \<times> gfs2_alloc \<times> nat" where
  "two_circuit_scan nq rgds al begin_rgd t =
     (case circuit nq rgds al LM_FLAG_TRY (circuit_order (length rgds) begin_rgd) 0 t of
        (CFound g al', t1) \<Rightarrow> (0, Some g, al', t1)
      | (CAbort e, t1) \<Rightarrow> (e, None, al, t1)
      | (CDone skipped, t1) \<Rightarrow>
          if skipped = 0 then (- ENOSPC, None, al, t1)
          else (case circuit nq rgds al 0 (circuit_order (length rgds) begin_rgd) skipped t1 of
                  (CFound g al', t2) \<Rightarrow> (0, Some g, al', t2)
                | (CAbort e, t2) \<Rightarrow> (e, None, al, t2)
                | (CDone skipped', t2) \<Rightarrow> (- ENOSPC, None, al, t2)))"

subsection \<open>The recent list, the forward cursor and get_local_rgrp\<close>

definition gfs2_rgrpd_get_first :: "gfs2_sbd \<Rightarrow> nat option" where
  \<comment> \<open>\<open>None\<close>: the \<open>gfs2_assert\<close> on a non-empty index panics.\<close>
  "gfs2_rgrpd_get_first sdp = (if sd_rgrpds sdp = [] then None else Some 0)"

definition gfs2_rgrpd_get_next :: "gfs2_sbd \<Rightarrow> nat \<Rightarrow> nat option" where
  "gfs2_rgrpd_get_next sdp rgd = (if Suc rgd < length (sd_rgrpds sdp) then Some (Suc rgd) else None)"

definition recent_rgrp_first :: "gfs2_sbd \<Rightarrow> nat \<Rightarrow> nat option" where
  "recent_rgrp_first sdp rglast =
     (case sd_rindex_recent_list sdp of
        [] \<Rightarrow> None
      | r # rs \<Rightarrow>
          if rglast = 0 then Some r
          else (case find (\<lambda>rgd. ri_addr (rd_ri (sd_rgrpds sdp ! rgd)) = rglast) (r # rs) of
                  Some rgd \<Rightarrow> Some rgd
                | None \<Rightarrow> Some r))"

definition recent_rgrp_next :: "gfs2_sbd \<Rightarrow> nat \<Rightarrow> bool \<Rightarrow> nat option \<times> gfs2_sbd" where
  \<comment> \<open>The entry after \<open>cur_rgd\<close>, which is unlinked when \<open>remove\<close> is set; the head of the list when \<open>cur_rgd\<close> is not on it.\<close>
  "recent_rgrp_next sdp cur_rgd remove =
     (case dropWhile (\<lambda>rgd. rgd \<noteq> cur_rgd) (sd_rindex_recent_list sdp) of
        [] \<Rightarrow> (case sd_rindex_recent_list sdp of [] \<Rightarrow> (None, sdp) | r # rs \<Rightarrow> (Some r, sdp))
      | c # rest \<Rightarrow>
          (case rest of [] \<Rightarrow> None | r # rs \<Rightarrow> Some r,
           if remove
           then sdp\<lparr>sd_rindex_recent_list := remove1 cur_rgd (sd_rindex_recent_list sdp)\<rparr>
           else sdp))"

fun recent_add_loop :: "nat list \<Rightarrow> nat \<Rightarrow> nat \<Rightarrow> nat \<Rightarrow> bool" where
  \<comment> \<open>The \<open>list_for_each_entry\<close> of \<open>recent_rgrp_add\<close>: \<open>False\<close> at a \<open>goto out\<close>, \<open>True\<close> when the loop runs off the list and the group is added.\<close>
  "recent_add_loop [] new_rgd count mx = True"
| "recent_add_loop (rgd # rs) new_rgd count mx =
     (if rgd = new_rgd then False
      else if mx \<le> Suc count then False
      else recent_add_loop rs new_rgd (Suc count) mx)"

definition recent_rgrp_add :: "gfs2_sbd \<Rightarrow> nat \<Rightarrow> gfs2_sbd option" where
  \<comment> \<open>\<open>None\<close>: the division by a zero \<open>gfs2_jindex_size\<close>.\<close>
  "recent_rgrp_add sdp new_rgd =
     (if sd_journals sdp = 0 then None
      else
        (let mx = sd_rgrps sdp div sd_journals sdp
         in Some (if recent_add_loop (sd_rindex_recent_list sdp) new_rgd 0 mx
                  then sdp\<lparr>sd_rindex_recent_list := sd_rindex_recent_list sdp @ [new_rgd]\<rparr>
                  else sdp)))"

definition forward_rgrp_get :: "gfs2_sbd \<Rightarrow> (nat \<times> gfs2_sbd) option" where
  \<comment> \<open>\<open>None\<close>: the division by zero, the assertion of \<open>gfs2_rgrpd_get_first\<close>, or a walk past the end of the index.\<close>
  "forward_rgrp_get sdp =
     (case sd_rindex_forward sdp of
        Some rgd \<Rightarrow> Some (rgd, sdp)
      | None \<Rightarrow>
          (let journals = sd_journals sdp in
           if journals \<le> sd_rgrps sdp \<and> journals = 0 then None
           else
             (let rg = (if journals \<le> sd_rgrps sdp
                        then u32 (sd_rgrps sdp * sd_jid sdp) div journals else 0)
              in if rg < length (sd_rgrpds sdp)
                 then Some (rg, sdp\<lparr>sd_rindex_forward := Some rg\<rparr>)
                 else None)))"

definition forward_rgrp_set :: "gfs2_sbd \<Rightarrow> nat \<Rightarrow> gfs2_sbd" where
  "forward_rgrp_set sdp rgd = sdp\<lparr>sd_rindex_forward := Some rgd\<rparr>"

datatype recent_result = RFound nat | RError int | RDone

partial_function (option) recent_loop ::
  "glock_nq \<Rightarrow> gfs2_sbd \<Rightarrow> gfs2_alloc \<Rightarrow> nat option \<Rightarrow> nat \<Rightarrow>
   (recent_result \<times> gfs2_sbd \<times> gfs2_alloc \<times> nat) option" where
  \<comment> \<open>The \<open>while (rgd)\<close> loop over the recent list. It follows the links of the list,
      so it is defined as a partial function; the theorems below are about the code
      after it.\<close>
  "recent_loop nq sdp al rgdo t =
     (case rgdo of
        None \<Rightarrow> Some (RDone, sdp, al, t)
      | Some rgd \<Rightarrow>
          (let error = nq t rgd LM_FLAG_TRY in
           if error = 0 \<and> fst (try_rgrp_fit (sd_rgrpds sdp ! rgd) rgd al) \<noteq> 0
           then Some (RFound rgd, sdp, snd (try_rgrp_fit (sd_rgrpds sdp ! rgd) rgd al), Suc t)
           else if error \<noteq> 0 \<and> error \<noteq> GLR_TRYFAILED
           then Some (RError error, sdp, al, Suc t)
           else recent_loop nq (snd (recent_rgrp_next sdp rgd (error = 0))) al
                  (fst (recent_rgrp_next sdp rgd (error = 0))) (Suc t)))"

definition get_local_rgrp_out ::
  "gfs2_sbd \<Rightarrow> gfs2_inode \<Rightarrow> gfs2_alloc \<Rightarrow> nat \<Rightarrow> bool \<Rightarrow> (int \<times> gfs2_sbd \<times> gfs2_inode) option" where
  \<comment> \<open>The code at the label \<open>out\<close>; \<open>has_begin\<close> tells whether \<open>begin\<close> is set, that is
      whether the group was chosen by the scan of the full list.\<close>
  "get_local_rgrp_out sdp ip al rgd has_begin =
     (let ip' = ip\<lparr>i_alloc := Some al,
                    i_last_rg_alloc := ri_addr (rd_ri (sd_rgrpds sdp ! rgd))\<rparr>
      in if has_begin
         then (case recent_rgrp_add sdp rgd of
                 None \<Rightarrow> None
               | Some sdp1 \<Rightarrow>
                   Some (0, forward_rgrp_set sdp1 (rgrpd_next_wrap (length (sd_rgrpds sdp1)) rgd), ip'))
         else Some (0, sdp, ip'))"

definition get_local_rgrp ::
  "glock_nq \<Rightarrow> gfs2_sbd \<Rightarrow> gfs2_inode \<Rightarrow> (int \<times> gfs2_sbd \<times> gfs2_inode) option" where
  "get_local_rgrp nq sdp ip =
     (case i_alloc ip of None \<Rightarrow> None | Some al \<Rightarrow>
      case recent_loop nq sdp al (recent_rgrp_first sdp (i_last_rg_alloc ip)) 0 of
        None \<Rightarrow> None
      | Some (RError error, sdp1, al1, t1) \<Rightarrow> Some (error, sdp1, ip\<lparr>i_alloc := Some al1\<rparr>)
      | Some (RFound rgd, sdp1, al1, t1) \<Rightarrow> get_local_rgrp_out sdp1 ip al1 rgd False
      | Some (RDone, sdp1, al1, t1) \<Rightarrow>
          (case forward_rgrp_get sdp1 of
             None \<Rightarrow> None
           | Some (begin_rgd, sdp2) \<Rightarrow>
               (case full_list_loop nq (sd_rgrpds sdp2) al1 begin_rgd begin_rgd LM_FLAG_TRY 0 0 t1 of
                  None \<Rightarrow> None
                | Some (error, None, al2, t2) \<Rightarrow> Some (error, sdp2, ip\<lparr>i_alloc := Some al2\<rparr>)
                | Some (error, Some rgd, al2, t2) \<Rightarrow> get_local_rgrp_out sdp2 ip al2 rgd True)))"

text \<open>Example states for the scan: a group is given by its address and its free count.\<close>

definition scan_rgd :: "nat \<Rightarrow> nat \<Rightarrow> gfs2_rgrpd" where
  "scan_rgd addr free =
     \<lparr>rd_ri = \<lparr>ri_addr = addr, ri_data0 = addr + 1, ri_data = 0\<rparr>,
      rd_rg = \<lparr>rg_free = free, rg_dinodes = 0\<rparr>,
      rd_bits = [],
      rd_free_clone = free, rd_last_alloc_data = 0, rd_last_alloc_meta = 0\<rparr>"

definition three_blocks :: gfs2_alloc where
  "three_blocks = \<lparr>al_requested = 3, al_alloced = 0, al_rgd = None\<rparr>"

definition eio_nq :: glock_nq where
  "eio_nq t rgd flags = - EIO"

definition contended_nq :: glock_nq where
  "contended_nq t rgd flags = (if flags = LM_FLAG_TRY \<and> rgd \<noteq> 2 then GLR_TRYFAILED else 0)"

definition recent_busy_nq :: glock_nq where
  "recent_busy_nq t rgd flags = (if flags = LM_FLAG_TRY \<and> rgd < 2 then GLR_TRYFAILED else 0)"

definition full_recent_sbd :: gfs2_sbd where
  "full_recent_sbd =
     \<lparr>sd_rgrpds = [scan_rgd 10 0, scan_rgd 20 0, scan_rgd 30 5, scan_rgd 40 5],
      sd_rgrps = 4, sd_journals = 2, sd_jid = 0,
      sd_rindex_recent_list = [0, 1], sd_rindex_forward = Some 2, sd_withdrawn = False,
      sd_last_warning = 0, sd_complain = 0, ar_debug = False\<rparr>"

definition full_recent_inode :: gfs2_inode where
  "full_recent_inode =
     \<lparr>i_alloc = Some three_blocks, i_last_rg_alloc = 0, di_goal_data = 0, di_goal_meta = 0,
      di_eattr = 0, di_flags = 0, i_immutable = False,
      di_blocks = 0, di_mode = 0, di_ctime = 0\<rparr>"

definition short_recent_sbd :: gfs2_sbd where
  \<comment> \<open>The same volume with the recent list [0], below its bound of 2.\<close>
  "short_recent_sbd = full_recent_sbd\<lparr>sd_rindex_recent_list := [0]\<rparr>"

section \<open>Extended attributes\<close>

text \<open>
  \<open>eattr.c\<close> reads the on-disk formats through constants and macros of
  \<open>gfs2_ondisk.h\<close>, \<open>eattr.h\<close> and \<open>gfs2.h\<close>, which are not part of the sources at
  hand; they are modelled from the specification of the attribute block format. The
  numbers themselves matter only in the examples.
\<close>

definition GFS2_MAGIC :: nat where
  \<comment> \<open>Modelled from the spec: the magic number that starts the header of every metadata block.\<close>
  "GFS2_MAGIC = 18225520"


definition GFS2_METATYPE_EA :: nat where
  \<comment> \<open>Modelled from the spec: the tag of an attribute block.\<close>
  "GFS2_METATYPE_EA = 10"



definition GFS2_EATYPE_LAST :: nat where
  \<comment> \<open>Modelled from the spec: the recognized types are unused, user, system and security, numbered 0 to 3.\<close>
  "GFS2_EATYPE_LAST = 3"

definition GFS2_EATYPE_VALID :: "nat \<Rightarrow> bool" where
  \<comment> \<open>Modelled from the spec: the macro is missing; the type is one of the recognized variants.\<close>
  "GFS2_EATYPE_VALID x = (x \<le> GFS2_EATYPE_LAST)"

definition GFS2_EAFLAG_LAST :: byte where
  \<comment> \<open>Modelled from the spec: the flag of the last record of a block.\<close>
  "GFS2_EAFLAG_LAST = 1"

definition GFS2_EA_MAX_NAME_LEN :: nat where
  \<comment> \<open>Modelled from the spec: the constant is missing; the name length is stored in one byte.\<close>
  "GFS2_EA_MAX_NAME_LEN = 255"

definition GFS2_EA_MAX_DATA_LEN :: nat where
  \<comment> \<open>Modelled from the spec: the fixed maximum of a value, 64KiB.\<close>
  "GFS2_EA_MAX_DATA_LEN = 65536"





definition sizeof_gfs2_meta_header :: nat where
  \<comment> \<open>Modelled from the spec: the size of the header that starts every metadata block.\<close>
  "sizeof_gfs2_meta_header = 24"

definition sizeof_gfs2_ea_header :: nat where
  \<comment> \<open>Modelled from the spec: the size of the fixed part of an attribute record.\<close>
  "sizeof_gfs2_ea_header = 16"

text \<open>
  An attribute record, as \<open>struct gfs2_ea_header\<close> and the bytes after it: the name,
  and then either the value (stuffed) or \<open>ea_num_ptrs\<close> block pointers (unstuffed).
  The integer fields are kept in host order, so the byte-order macros are the identity.
\<close>

record gfs2_ea_header =
  ea_rec_len :: nat
  ea_data_len :: nat
  ea_name_len :: nat
  ea_type :: nat
  ea_flags :: byte
  ea_num_ptrs :: nat
  ea_name :: "byte list"
  ea_data :: "byte list"
  ea_dataptrs :: "nat \<Rightarrow> nat"

text \<open>
  A metadata buffer. A pointer to a record in the buffer is the offset of the record in
  \<open>b_data\<close>; \<open>b_ea\<close> gives the record that starts at an offset. \<open>b_mh_magic\<close> and
  \<open>b_mh_type\<close> are the magic number and the type tag of the block header, \<open>b_ptrs\<close>
  the pointer slots of an indirect block,
  \<open>b_payload\<close> the bytes after the header of a data block, and \<open>b_wait\<close> the result
  of waiting for the read of the buffer (\<open>gfs2_meta_reread\<close> with \<open>DIO_WAIT\<close>).
\<close>

record buffer_head =
  b_blocknr :: nat
  b_size :: nat
  b_mh_magic :: nat
  b_mh_type :: nat
  b_ea :: "nat \<Rightarrow> gfs2_ea_header"
  b_ptrs :: "nat \<Rightarrow> nat"
  b_wait :: int
  b_payload :: "byte list"

text \<open>
  The request of a caller. \<open>er_data\<close> is \<open>None\<close> for the null pointer.
\<close>

record gfs2_ea_request =
  er_name :: "byte list"
  er_data :: "byte list option"
  er_name_len :: nat
  er_data_len :: nat
  er_type :: nat
  er_flags :: "32 word"


definition GFS2_EA_REC_LEN :: "gfs2_ea_header \<Rightarrow> nat" where
  \<comment> \<open>Modelled from the spec: the macro is missing; the record length.\<close>
  "GFS2_EA_REC_LEN ea = ea_rec_len ea"


definition GFS2_EA_IS_LAST :: "gfs2_ea_header \<Rightarrow> bool" where
  \<comment> \<open>Modelled from the spec: the macro is missing; the record is flagged last.\<close>
  "GFS2_EA_IS_LAST ea = (ea_flags ea AND GFS2_EAFLAG_LAST \<noteq> 0)"


definition ALIGN8 :: "nat \<Rightarrow> nat" where
  \<comment> \<open>Modelled from the spec: rounding to the alignment unit of 8 bytes, in \<open>unsigned int\<close>.\<close>
  "ALIGN8 x = u32 (u32 (x + 7) div 8 * 8)"

definition DIV_RU :: "nat \<Rightarrow> nat \<Rightarrow> nat" where
  \<comment> \<open>Modelled from the spec: the macro is missing; division rounding up, in \<open>unsigned int\<close>.\<close>
  "DIV_RU x y = u32 (x + y - 1) div y"

definition GFS2_EAREQ_SIZE_STUFFED :: "gfs2_ea_request \<Rightarrow> nat" where
  \<comment> \<open>Modelled from the spec: the stuffed size of a request is header + name + inline data, rounded to the alignment unit.\<close>
  "GFS2_EAREQ_SIZE_STUFFED er =
     ALIGN8 (u32 (sizeof_gfs2_ea_header + er_name_len er + er_data_len er))"

definition GFS2_EAREQ_SIZE_UNSTUFFED :: "nat \<Rightarrow> gfs2_ea_request \<Rightarrow> nat" where
  \<comment> \<open>Modelled from the spec: unstuffed, the record holds the header, the name and one pointer for each payload unit of data.\<close>
  "GFS2_EAREQ_SIZE_UNSTUFFED jbsize er =
     ALIGN8 (u32 (sizeof_gfs2_ea_header + er_name_len er + 8 * DIV_RU (er_data_len er) jbsize))"

definition gfs2_metatype_check :: "buffer_head \<Rightarrow> nat \<Rightarrow> bool" where
  \<comment> \<open>Modelled from the spec: the inline check of \<open>util.h\<close> is missing; true on a bad magic number or a type tag other than the expected one. Either way \<open>gfs2_meta_check_ii\<close> or \<open>gfs2_metatype_check_ii\<close> of \<open>util.c\<close> withdraws the volume.\<close>
  "gfs2_metatype_check bh t = (b_mh_magic bh \<noteq> GFS2_MAGIC \<or> b_mh_type bh \<noteq> t)"

subsection \<open>The size check\<close>

definition ea_calc_size :: "nat \<Rightarrow> gfs2_ea_request \<Rightarrow> bool \<times> nat" where
  "ea_calc_size jbsize er =
     (if GFS2_EAREQ_SIZE_STUFFED er \<le> jbsize then (True, GFS2_EAREQ_SIZE_STUFFED er)
      else (False, GFS2_EAREQ_SIZE_UNSTUFFED jbsize er))"

definition ea_check_size :: "nat \<Rightarrow> gfs2_ea_request \<Rightarrow> int" where
  "ea_check_size jbsize er =
     (if GFS2_EA_MAX_DATA_LEN < er_data_len er then - ERANGE
      else if jbsize < snd (ea_calc_size jbsize er) then - ERANGE
      else 0)"

subsection \<open>ea_foreach_i and ea_foreach\<close>

text \<open>
  A callback gets its private data, the buffer, the record and the previous record. It
  returns its result, the records of the buffer as it leaves them, and its private data.
  The result of a walk over one block is the error, the buffer, the private data, whether
  \<open>gfs2_consist_inode\<close> was called, and the records on which the callback was
  called, in order, each as it was when it passed the three checks; this last component
  is a trace, it is no variable of the C code.
\<close>

type_synonym 's ea_call_t =
  "'s \<Rightarrow> buffer_head \<Rightarrow> nat \<Rightarrow> nat option \<Rightarrow> int \<times> (nat \<Rightarrow> gfs2_ea_header) \<times> 's"

type_synonym 's ea_walk = "int \<times> buffer_head \<times> 's \<times> bool \<times> (nat \<times> gfs2_ea_header) list"

function ea_foreach_loop ::
  "'s ea_call_t \<Rightarrow> buffer_head \<Rightarrow> nat \<Rightarrow> nat option \<Rightarrow> 's \<Rightarrow> (nat \<times> gfs2_ea_header) list \<Rightarrow> 's ea_walk" where
  "ea_foreach_loop ea_call bh ea prev data calls =
     (if GFS2_EA_REC_LEN (b_ea bh ea) = 0 then (- EIO, bh, data, True, calls)
      else if \<not> ea + GFS2_EA_REC_LEN (b_ea bh ea) \<le> b_size bh then (- EIO, bh, data, True, calls)
      else if \<not> GFS2_EATYPE_VALID (ea_type (b_ea bh ea)) then (- EIO, bh, data, True, calls)
      else
        (case ea_call data bh ea prev of
           (error, blk, data') \<Rightarrow>
             if error \<noteq> 0
             then (error, bh\<lparr>b_ea := blk\<rparr>, data', False, calls @ [(ea, b_ea bh ea)])
             else if GFS2_EA_IS_LAST (blk ea)
             then (if ea + GFS2_EA_REC_LEN (blk ea) \<noteq> b_size bh
                   then (- EIO, bh\<lparr>b_ea := blk\<rparr>, data', True, calls @ [(ea, b_ea bh ea)])
                   else (error, bh\<lparr>b_ea := blk\<rparr>, data', False, calls @ [(ea, b_ea bh ea)]))
             else ea_foreach_loop ea_call (bh\<lparr>b_ea := blk\<rparr>) (ea + GFS2_EA_REC_LEN (blk ea))
                    (Some ea) data' (calls @ [(ea, b_ea bh ea)])))"
  by pat_completeness auto

termination
proof (relation "measure (\<lambda>(ea_call, bh, ea, prev, data, calls).
          2 * (b_size bh - ea) + (if GFS2_EA_REC_LEN (b_ea bh ea) = 0 then 0 else 1))", goal_cases)
  case 1
  then show ?case by simp
next
  case (2 ea_call bh ea prev data calls error rest blk data')
  then show ?case
    by (cases "GFS2_EA_REC_LEN (blk ea) = 0") (auto split: if_splits)
qed

declare ea_foreach_loop.simps [simp del]

definition ea_foreach_i :: "'s ea_call_t \<Rightarrow> buffer_head \<Rightarrow> 's \<Rightarrow> 's ea_walk" where
  "ea_foreach_i ea_call bh data =
     (if gfs2_metatype_check bh GFS2_METATYPE_EA then (- EIO, bh, data, True, [])
      else ea_foreach_loop ea_call bh sizeof_gfs2_meta_header None data [])"

text \<open>
  \<open>gfs2_meta_read\<close> is a function from block numbers to an error or a buffer. A walk
  returns it with the buffers as the callbacks left them. The state of the functions
  below is this function, the inode, whether the volume was withdrawn by a consistency
  error, and the rest of the world, which only the collaborators touch.
\<close>

type_synonym meta_cache = "nat \<Rightarrow> int + buffer_head"

type_synonym 'w ea_state = "meta_cache \<times> gfs2_inode \<times> bool \<times> 'w"



subsection \<open>Find and Get\<close>









definition ea_normalize :: "gfs2_ea_request \<Rightarrow> gfs2_ea_request" where
  \<comment> \<open>The first lines of \<open>gfs2_ea_get\<close> and \<open>gfs2_ea_set\<close>: a null buffer or a length of 0 make both null and 0.\<close>
  "ea_normalize er =
     (if er_data er = None \<or> er_data_len er = 0
      then er\<lparr>er_data := None, er_data_len := 0\<rparr> else er)"


subsection \<open>Set\<close>



definition gfs2_ea_set ::
  "nat \<Rightarrow> ('w ea_state \<Rightarrow> int \<times> 'w ea_state) \<Rightarrow> ('w ea_state \<Rightarrow> 'w ea_state) \<Rightarrow>
   (nat \<Rightarrow> 'w ea_state \<Rightarrow> gfs2_ea_request \<Rightarrow> int \<times> 'w ea_state) \<Rightarrow>
   'w ea_state \<Rightarrow> gfs2_ea_request \<Rightarrow> int \<times> gfs2_ea_request \<times> 'w ea_state" where
  "gfs2_ea_set jbsize nq dq eo_set st er =
     (if er_name_len er = 0 \<or> GFS2_EA_MAX_NAME_LEN < er_name_len er then (- EINVAL, er, st)
      else
        (let er1 = ea_normalize er in
         if ea_check_size jbsize er1 \<noteq> 0 then (ea_check_size jbsize er1, er1, st)
         else
           (case nq st of
              (error, st1) \<Rightarrow>
                if error \<noteq> 0 then (error, er1, st1)
                else if i_immutable (fst (snd st1)) then (- EPERM, er1, dq st1)
                else (case eo_set (er_type er1) st1 er1 of
                        (error, st2) \<Rightarrow> (error, er1, dq st2)))))"

section \<open>Predicates and example states of the theorems\<close>

definition seg_view :: "gfs2_bitmap \<Rightarrow> byte list" where
  \<comment> \<open>The buffer \<open>rgblk_search\<close> reads for a segment: the clone when there is one.\<close>
  "seg_view bi = (case bi_clone bi of Some c \<Rightarrow> c | None \<Rightarrow> bi_bh bi)"

definition seg_cell :: "gfs2_bitmap \<Rightarrow> byte list \<Rightarrow> nat \<Rightarrow> byte" where
  \<comment> \<open>The state of cell \<open>b\<close> of a segment, read in buffer \<open>buf\<close>.\<close>
  "seg_cell bi buf b = gfs2_testbit buf (bi_offset bi) (bi_len bi) b"

definition rgd_cells_fit :: "gfs2_rgrpd \<Rightarrow> bool" where
  \<comment> \<open>The cell numbers of every segment fit \<open>uint32_t\<close>, as \<open>compute_bitstructs\<close>
      checks against \<open>ri_data\<close>.\<close>
  "rgd_cells_fit rgd =
     list_all (\<lambda>bi. (bi_start bi + bi_len bi) * GFS2_NBBY < 4294967296) (rd_bits rgd)"

definition goal_in_rgrp :: "gfs2_rgrpd \<Rightarrow> nat \<Rightarrow> bool" where
  \<comment> \<open>The goal is a cell of the group: it lies before the end of the last segment.\<close>
  "goal_in_rgrp rgd goal =
     (rd_bits rgd \<noteq> [] \<and>
      goal < (bi_start (last (rd_bits rgd)) + bi_len (last (rd_bits rgd))) * GFS2_NBBY)"

text \<open>
  Scenario A of the specification: one resource group with the data blocks 100 to 163,
  all free, a reservation for one block on it, and the goal block 100. The state with
  index 1 is that after \<open>gfs2_alloc_data\<close>, the state with index 2 that after a
  \<open>gfs2_alloc_meta\<close> which follows it.
\<close>

definition scenario_A_rgd :: gfs2_rgrpd where
  "scenario_A_rgd =
     \<lparr>rd_ri = \<lparr>ri_addr = 17, ri_data0 = 100, ri_data = 64\<rparr>,
      rd_rg = \<lparr>rg_free = 64, rg_dinodes = 0\<rparr>,
      rd_bits = [\<lparr>bi_bh = replicate 144 0, bi_clone = None, bi_offset = 128,
                   bi_start = 0, bi_len = 16\<rparr>],
      rd_free_clone = 64, rd_last_alloc_data = 0, rd_last_alloc_meta = 0\<rparr>"

definition scenario_A_sbd :: gfs2_sbd where
  "scenario_A_sbd =
     \<lparr>sd_rgrpds = [scenario_A_rgd], sd_rgrps = 1, sd_journals = 1, sd_jid = 0,
      sd_rindex_recent_list = [], sd_rindex_forward = None, sd_withdrawn = False,
      sd_last_warning = 0, sd_complain = 0, ar_debug = False\<rparr>"

definition scenario_A_inode :: gfs2_inode where
  "scenario_A_inode =
     \<lparr>i_alloc = Some \<lparr>al_requested = 1, al_alloced = 0, al_rgd = Some 0\<rparr>,
      i_last_rg_alloc = 0, di_goal_data = 100, di_goal_meta = 0,
      di_eattr = 0, di_flags = 0, i_immutable = False,
      di_blocks = 0, di_mode = 0, di_ctime = 0\<rparr>"

definition all_cells_free :: "gfs2_bitmap \<Rightarrow> bool" where
  \<comment> \<open>Every cell of the segment is free, in the live buffer and in what the search
      reads.\<close>
  "all_cells_free bi =
     list_all (\<lambda>b. seg_cell bi (bi_bh bi) b = GFS2_BLKST_FREE \<and>
                   seg_cell bi (seg_view bi) b = GFS2_BLKST_FREE)
              [0..<bi_len bi * GFS2_NBBY]"

definition scenario_A_rgd1 :: gfs2_rgrpd where
  "scenario_A_rgd1 =
     \<lparr>rd_ri = \<lparr>ri_addr = 17, ri_data0 = 100, ri_data = 64\<rparr>,
      rd_rg = \<lparr>rg_free = 63, rg_dinodes = 0\<rparr>,
      rd_bits = [\<lparr>bi_bh = (replicate 144 0)[128 := 1], bi_clone = None, bi_offset = 128,
                   bi_start = 0, bi_len = 16\<rparr>],
      rd_free_clone = 63, rd_last_alloc_data = 0, rd_last_alloc_meta = 0\<rparr>"

definition scenario_A_sbd1 :: gfs2_sbd where
  "scenario_A_sbd1 = scenario_A_sbd\<lparr>sd_rgrpds := [scenario_A_rgd1]\<rparr>"

definition scenario_A_inode1 :: gfs2_inode where
  "scenario_A_inode1 =
     \<lparr>i_alloc = Some \<lparr>al_requested = 1, al_alloced = 1, al_rgd = Some 0\<rparr>,
      i_last_rg_alloc = 0, di_goal_data = 100, di_goal_meta = 0,
      di_eattr = 0, di_flags = 0, i_immutable = False,
      di_blocks = 0, di_mode = 0, di_ctime = 0\<rparr>"

definition scenario_A_rgd2 :: gfs2_rgrpd where
  "scenario_A_rgd2 =
     \<lparr>rd_ri = \<lparr>ri_addr = 17, ri_data0 = 100, ri_data = 64\<rparr>,
      rd_rg = \<lparr>rg_free = 62, rg_dinodes = 0\<rparr>,
      rd_bits = [\<lparr>bi_bh = (replicate 144 0)[128 := 5], bi_clone = None, bi_offset = 128,
                   bi_start = 0, bi_len = 16\<rparr>],
      rd_free_clone = 62, rd_last_alloc_data = 0, rd_last_alloc_meta = 1\<rparr>"

definition scenario_A_sbd2 :: gfs2_sbd where
  "scenario_A_sbd2 = scenario_A_sbd\<lparr>sd_rgrpds := [scenario_A_rgd2]\<rparr>"

definition scenario_A_inode2 :: gfs2_inode where
  "scenario_A_inode2 =
     \<lparr>i_alloc = Some \<lparr>al_requested = 1, al_alloced = 2, al_rgd = Some 0\<rparr>,
      i_last_rg_alloc = 0, di_goal_data = 100, di_goal_meta = 101,
      di_eattr = 0, di_flags = 0, i_immutable = False,
      di_blocks = 0, di_mode = 0, di_ctime = 0\<rparr>"

text \<open>
  A group of two segments of four cells. The first has a clone in which every cell is
  used (in the live buffer cell 2 is free again); in the second only cell 3 is free.
\<close>

definition wrap_rgd :: gfs2_rgrpd where
  "wrap_rgd =
     \<lparr>rd_ri = \<lparr>ri_addr = 17, ri_data0 = 200, ri_data = 8\<rparr>,
      rd_rg = \<lparr>rg_free = 1, rg_dinodes = 0\<rparr>,
      rd_bits = [\<lparr>bi_bh = [0, 81], bi_clone = Some [0, 85], bi_offset = 1,
                   bi_start = 0, bi_len = 1\<rparr>,
                 \<lparr>bi_bh = [0, 21], bi_clone = None, bi_offset = 1,
                   bi_start = 1, bi_len = 1\<rparr>],
      rd_free_clone = 1, rd_last_alloc_data = 0, rd_last_alloc_meta = 0\<rparr>"

text \<open>
  A caller that allocates blocks one after the other under the reservation of the
  inode, each with one of the three entry points.
\<close>

datatype alloc_call = Alloc_data | Alloc_meta | Alloc_di

fun alloc_block ::
  "alloc_call \<Rightarrow> gfs2_sbd \<Rightarrow> gfs2_inode \<Rightarrow> (nat \<times> gfs2_sbd \<times> gfs2_inode) option" where
  "alloc_block Alloc_data sdp ip = gfs2_alloc_data sdp ip"
| "alloc_block Alloc_meta sdp ip = gfs2_alloc_meta sdp ip"
| "alloc_block Alloc_di sdp ip = gfs2_alloc_di sdp ip"

fun alloc_blocks ::
  "alloc_call list \<Rightarrow> gfs2_sbd \<Rightarrow> gfs2_inode \<Rightarrow> (gfs2_sbd \<times> gfs2_inode) option" where
  "alloc_blocks [] sdp ip = Some (sdp, ip)"
| "alloc_blocks (k # ks) sdp ip =
     (case alloc_block k sdp ip of
        None \<Rightarrow> None
      | Some (blk, sdp', ip') \<Rightarrow> alloc_blocks ks sdp' ip')"

subsection \<open>Attribute records, stores and requests\<close>

definition ea_record_ok :: "buffer_head \<Rightarrow> nat \<Rightarrow> bool" where
  \<comment> \<open>The three checks of \<open>ea_foreach_i\<close> on the record at an offset.\<close>
  "ea_record_ok bh ea =
     (GFS2_EA_REC_LEN (b_ea bh ea) \<noteq> 0 \<and>
      ea + GFS2_EA_REC_LEN (b_ea bh ea) \<le> b_size bh \<and>
      GFS2_EATYPE_VALID (ea_type (b_ea bh ea)))"

definition ea_visit_ok :: "nat \<Rightarrow> nat \<times> gfs2_ea_header \<Rightarrow> bool" where
  \<comment> \<open>The same checks on an entry of the trace of a walk.\<close>
  "ea_visit_ok bsize v =
     (GFS2_EA_REC_LEN (snd v) \<noteq> 0 \<and> fst v + GFS2_EA_REC_LEN (snd v) \<le> bsize \<and>
      GFS2_EATYPE_VALID (ea_type (snd v)))"


definition ea_unused_header :: gfs2_ea_header where
  "ea_unused_header =
     \<lparr>ea_rec_len = 0, ea_data_len = 0, ea_name_len = 0, ea_type = 0, ea_flags = 0,
      ea_num_ptrs = 0, ea_name = [], ea_data = [], ea_dataptrs = (\<lambda>x. 0)\<rparr>"

definition ea_foo_header :: gfs2_ea_header where
  \<comment> \<open>The attribute \<open>user.foo\<close> with the value \<open>hello\<close>, in a record of 32 bytes.\<close>
  "ea_foo_header =
     \<lparr>ea_rec_len = 32, ea_data_len = 5, ea_name_len = 3, ea_type = 1, ea_flags = 0,
      ea_num_ptrs = 0, ea_name = [102, 111, 111], ea_data = [104, 101, 108, 108, 111],
      ea_dataptrs = (\<lambda>x. 0)\<rparr>"

definition corrupt_ea_block :: buffer_head where
  \<comment> \<open>A block of 88 bytes: a record at offset 24, and at offset 56 a record of length 0.\<close>
  "corrupt_ea_block =
     \<lparr>b_blocknr = 7, b_size = 88, b_mh_magic = 18225520, b_mh_type = 10,
      b_ea = (\<lambda>off. if off = 24 then ea_foo_header else ea_unused_header),
      b_ptrs = (\<lambda>x. 0), b_wait = 0, b_payload = []\<rparr>"

definition count_call :: "nat ea_call_t" where
  \<comment> \<open>A callback that counts the records.\<close>
  "count_call n bh ea prev = (0, b_ea bh, Suc n)"

definition ea_foo_last :: gfs2_ea_header where
  "ea_foo_last = ea_foo_header\<lparr>ea_flags := 1\<rparr>"

definition foo_ea_block :: buffer_head where
  \<comment> \<open>A block of 56 bytes whose only record is \<open>user.foo\<close>.\<close>
  "foo_ea_block =
     \<lparr>b_blocknr = 7, b_size = 56, b_mh_magic = 18225520, b_mh_type = 10,
      b_ea = (\<lambda>off. if off = 24 then ea_foo_last else ea_unused_header),
      b_ptrs = (\<lambda>x. 0), b_wait = 0, b_payload = []\<rparr>"

definition foo_cache :: meta_cache where
  "foo_cache = (\<lambda>bn. if bn = 7 then Inr foo_ea_block else Inl (- EIO))"

definition foo_inode :: gfs2_inode where
  "foo_inode =
     \<lparr>i_alloc = None, i_last_rg_alloc = 0, di_goal_data = 0, di_goal_meta = 0,
      di_eattr = 7, di_flags = 0, i_immutable = False,
      di_blocks = 0, di_mode = 0, di_ctime = 0\<rparr>"









definition foo_state :: "unit ea_state" where
  "foo_state = (foo_cache, foo_inode, False, ())"

definition big_value :: "byte list" where
  "big_value = replicate 70000 0"

definition big_request :: gfs2_ea_request where
  \<comment> \<open>Set \<open>user.bar\<close> to 70000 bytes.\<close>
  "big_request =
     \<lparr>er_name = [98, 97, 114], er_data = Some big_value, er_name_len = 3, er_data_len = 70000,
      er_type = 1, er_flags = 0\<rparr>"

definition unnamed_request :: gfs2_ea_request where
  \<comment> \<open>The same value under a name of length 0.\<close>
  "unnamed_request = big_request\<lparr>er_name := [], er_name_len := 0\<rparr>"

definition grant_nq :: "unit ea_state \<Rightarrow> int \<times> unit ea_state" where
  "grant_nq st = (0, st)"

definition release_dq :: "unit ea_state \<Rightarrow> unit ea_state" where
  "release_dq st = st"


definition refuse_eo_set :: "nat \<Rightarrow> unit ea_state \<Rightarrow> gfs2_ea_request \<Rightarrow> int \<times> unit ea_state" where
  "refuse_eo_set t st er = (- EPERM, st)"




section \<open>Properties of the clone refresh\<close>

lemma length_memcpy:
  "doff + len \<le> length dst \<Longrightarrow> soff + len \<le> length src \<Longrightarrow>
   length (memcpy dst doff src soff len) = length dst"
  by (simp add: memcpy_def)

lemma memcpy_range:
  "off + len \<le> length dst \<Longrightarrow> off + len \<le> length src \<Longrightarrow>
   take len (drop off (memcpy dst off src off len)) = take len (drop off src)"
  by (simp add: memcpy_def)

lemma memcpy_idem:
  "off + len \<le> length dst \<Longrightarrow> off + len \<le> length src \<Longrightarrow>
   memcpy (memcpy dst off src off len) off src off len = memcpy dst off src off len"
  by (simp add: memcpy_def)

lemma repolish_bitmap_idem: "bitmap_ok bi \<Longrightarrow> repolish_bitmap (repolish_bitmap bi) = repolish_bitmap bi"
  by (auto simp: repolish_bitmap_def bitmap_ok_def memcpy_idem split: option.splits)

lemma repolish_bitmap_bytes:
  "bitmap_ok bi \<Longrightarrow> bi_clone (repolish_bitmap bi) = Some c \<Longrightarrow>
   bitmap_bytes bi c = bitmap_bytes bi (bi_bh bi)"
  by (auto simp: repolish_bitmap_def bitmap_ok_def bitmap_bytes_def memcpy_range
           split: option.splits)

lemma repolish_bitmap_fields:
  "bi_bh (repolish_bitmap bi) = bi_bh bi"
  "bi_offset (repolish_bitmap bi) = bi_offset bi"
  "bi_start (repolish_bitmap bi) = bi_start bi"
  "bi_len (repolish_bitmap bi) = bi_len bi"
  "(bi_clone (repolish_bitmap bi) = None) = (bi_clone bi = None)"
  by (auto simp: repolish_bitmap_def split: option.splits)

lemma repolish_loop_map:
  "len = length bits \<Longrightarrow> x \<le> len \<Longrightarrow>
   repolish_loop bits x len = take x bits @ map repolish_bitmap (drop x bits)"
proof (induction bits x len rule: repolish_loop.induct)
  case (1 bits x len)
  show ?case
  proof (cases "x < len")
    case True
    let ?bits = "bits[x := repolish_bitmap (bits ! x)]"
    have "repolish_loop bits x len = repolish_loop ?bits (Suc x) len"
      using True by (subst repolish_loop.simps) simp
    also have "\<dots> = take (Suc x) ?bits @ map repolish_bitmap (drop (Suc x) ?bits)"
      using True "1.prems" by (intro "1.IH") simp_all
    also have "\<dots> = take x bits @ map repolish_bitmap (drop x bits)"
      using True "1.prems"
      by (simp add: take_Suc_conv_app_nth Cons_nth_drop_Suc [symmetric])
    finally show ?thesis .
  next
    case False
    with "1.prems" show ?thesis by (subst repolish_loop.simps) simp
  qed
qed

lemma repolish_loop_all:
  "len = length bits \<Longrightarrow> repolish_loop bits 0 len = map repolish_bitmap bits"
  by (simp add: repolish_loop_map)

lemma list_all2_repolish:
  assumes "list_all bitmap_ok bits"
  shows "list_all2
     (\<lambda>bi' bi. bi_bh bi' = bi_bh bi \<and> bi_offset bi' = bi_offset bi \<and>
        bi_start bi' = bi_start bi \<and> bi_len bi' = bi_len bi \<and>
        (case bi_clone bi of
           None \<Rightarrow> bi_clone bi' = None
         | Some c0 \<Rightarrow> (\<exists>c. bi_clone bi' = Some c \<and> length c = length c0 \<and>
                        bitmap_bytes bi c = bitmap_bytes bi (bi_bh bi))))
     (map repolish_bitmap bits) bits"
proof -
  have "bi_clone bi = Some c0 \<Longrightarrow> bitmap_ok bi \<Longrightarrow>
        \<exists>c. bi_clone (repolish_bitmap bi) = Some c \<and> length c = length c0 \<and>
            bitmap_bytes bi c = bitmap_bytes bi (bi_bh bi)" for bi c0
    by (simp add: repolish_bitmap_def bitmap_ok_def bitmap_bytes_def memcpy_range length_memcpy)
  then show ?thesis
    using assms
    by (auto simp: list_all2_conv_all_nth list_all_length repolish_bitmap_fields
             split: option.splits)
qed

lemma repolish_clones_idem:
  assumes "rgd_buffers_ok rgd"
  shows "gfs2_rgrp_repolish_clones (gfs2_rgrp_repolish_clones rgd) = gfs2_rgrp_repolish_clones rgd"
proof -
  have "map (repolish_bitmap \<circ> repolish_bitmap) (rd_bits rgd) = map repolish_bitmap (rd_bits rgd)"
    using assms
    by (intro map_cong) (auto simp: rgd_buffers_ok_def list_all_iff repolish_bitmap_idem)
  then show ?thesis
    by (simp add: gfs2_rgrp_repolish_clones_def repolish_loop_all)
qed

text \<open>
  Claim C8. Whatever the clones and the free-count snapshot held before,
  \<open>gfs2_rgrp_repolish_clones\<close> leaves the live buffers and the segment layout alone,
  keeps a clone exactly where there was one, makes the bitmap bytes of every clone equal
  to those of the live buffer, and sets \<open>rd_free_clone\<close> to the header's \<open>rg_free\<close>, so
  that the free-count query \<open>try_rgrp_fit\<close> compares the request with the committed
  header value; running it a second time changes nothing.
\<close>

theorem repolish_clones_refresh:
  assumes "rgd_buffers_ok rgd"
  shows "list_all2
           (\<lambda>bi' bi. bi_bh bi' = bi_bh bi \<and> bi_offset bi' = bi_offset bi \<and>
              bi_start bi' = bi_start bi \<and> bi_len bi' = bi_len bi \<and>
              (case bi_clone bi of
                 None \<Rightarrow> bi_clone bi' = None
               | Some c0 \<Rightarrow> (\<exists>c. bi_clone bi' = Some c \<and> length c = length c0 \<and>
                              bitmap_bytes bi c = bitmap_bytes bi (bi_bh bi))))
           (rd_bits (gfs2_rgrp_repolish_clones rgd)) (rd_bits rgd) \<and>
         rd_rg (gfs2_rgrp_repolish_clones rgd) = rd_rg rgd \<and>
         rd_free_clone (gfs2_rgrp_repolish_clones rgd) = rg_free (rd_rg rgd) \<and>
         fst (try_rgrp_fit (gfs2_rgrp_repolish_clones rgd) i al) =
           (if al_requested al \<le> rg_free (rd_rg rgd) then 1 else 0) \<and>
         gfs2_rgrp_repolish_clones (gfs2_rgrp_repolish_clones rgd) =
           gfs2_rgrp_repolish_clones rgd"
proof -
  have "list_all bitmap_ok (rd_bits rgd)"
    using assms by (simp add: rgd_buffers_ok_def)
  then have "list_all2
           (\<lambda>bi' bi. bi_bh bi' = bi_bh bi \<and> bi_offset bi' = bi_offset bi \<and>
              bi_start bi' = bi_start bi \<and> bi_len bi' = bi_len bi \<and>
              (case bi_clone bi of
                 None \<Rightarrow> bi_clone bi' = None
               | Some c0 \<Rightarrow> (\<exists>c. bi_clone bi' = Some c \<and> length c = length c0 \<and>
                              bitmap_bytes bi c = bitmap_bytes bi (bi_bh bi))))
           (rd_bits (gfs2_rgrp_repolish_clones rgd)) (rd_bits rgd)"
    by (simp add: gfs2_rgrp_repolish_clones_def repolish_loop_all list_all2_repolish)
  moreover have "rd_rg (gfs2_rgrp_repolish_clones rgd) = rd_rg rgd"
    and "rd_free_clone (gfs2_rgrp_repolish_clones rgd) = rg_free (rd_rg rgd)"
    by (simp_all add: gfs2_rgrp_repolish_clones_def)
  moreover have "fst (try_rgrp_fit (gfs2_rgrp_repolish_clones rgd) i al) =
           (if al_requested al \<le> rg_free (rd_rg rgd) then 1 else 0)"
    by (simp add: gfs2_rgrp_repolish_clones_def try_rgrp_fit_def)
  ultimately show ?thesis
    using repolish_clones_idem [OF assms] by simp
qed

text \<open>
  A descriptor with two segments: the first has a stale clone, the second has none,
  and the snapshot (9) differs from the header's free count (7).
\<close>

theorem repolish_clones_refresh_witness:
  "rgd_buffers_ok
     \<lparr>rd_ri = \<lparr>ri_addr = 17, ri_data0 = 100, ri_data = 16\<rparr>,
      rd_rg = \<lparr>rg_free = 7, rg_dinodes = 0\<rparr>,
      rd_bits = [\<lparr>bi_bh = [9, 1, 4], bi_clone = Some [8, 85, 85], bi_offset = 1,
                   bi_start = 0, bi_len = 2\<rparr>,
                 \<lparr>bi_bh = [9, 5, 0], bi_clone = None, bi_offset = 1,
                   bi_start = 2, bi_len = 2\<rparr>],
      rd_free_clone = 9, rd_last_alloc_data = 0, rd_last_alloc_meta = 0\<rparr> \<and>
   gfs2_rgrp_repolish_clones
     \<lparr>rd_ri = \<lparr>ri_addr = 17, ri_data0 = 100, ri_data = 16\<rparr>,
      rd_rg = \<lparr>rg_free = 7, rg_dinodes = 0\<rparr>,
      rd_bits = [\<lparr>bi_bh = [9, 1, 4], bi_clone = Some [8, 85, 85], bi_offset = 1,
                   bi_start = 0, bi_len = 2\<rparr>,
                 \<lparr>bi_bh = [9, 5, 0], bi_clone = None, bi_offset = 1,
                   bi_start = 2, bi_len = 2\<rparr>],
      rd_free_clone = 9, rd_last_alloc_data = 0, rd_last_alloc_meta = 0\<rparr> =
     \<lparr>rd_ri = \<lparr>ri_addr = 17, ri_data0 = 100, ri_data = 16\<rparr>,
      rd_rg = \<lparr>rg_free = 7, rg_dinodes = 0\<rparr>,
      rd_bits = [\<lparr>bi_bh = [9, 1, 4], bi_clone = Some [8, 1, 4], bi_offset = 1,
                   bi_start = 0, bi_len = 2\<rparr>,
                 \<lparr>bi_bh = [9, 5, 0], bi_clone = None, bi_offset = 1,
                   bi_start = 2, bi_len = 2\<rparr>],
      rd_free_clone = 7, rd_last_alloc_data = 0, rd_last_alloc_meta = 0\<rparr> \<and>
   rd_free_clone (gfs2_rgrp_repolish_clones
     \<lparr>rd_ri = \<lparr>ri_addr = 17, ri_data0 = 100, ri_data = 16\<rparr>,
      rd_rg = \<lparr>rg_free = 7, rg_dinodes = 0\<rparr>,
      rd_bits = [\<lparr>bi_bh = [9, 1, 4], bi_clone = Some [8, 85, 85], bi_offset = 1,
                   bi_start = 0, bi_len = 2\<rparr>,
                 \<lparr>bi_bh = [9, 5, 0], bi_clone = None, bi_offset = 1,
                   bi_start = 2, bi_len = 2\<rparr>],
      rd_free_clone = 9, rd_last_alloc_data = 0, rd_last_alloc_meta = 0\<rparr>) = 7"
  (is "?ok \<and> ?run \<and> ?snap")
proof -
  have ok: ?ok
    by (simp add: rgd_buffers_ok_def bitmap_ok_def)
  have run: ?run
    by (simp add: gfs2_rgrp_repolish_clones_def repolish_loop_all repolish_bitmap_def
                  memcpy_def)
  have ?snap
    using repolish_clones_refresh [OF ok] by simp
  with ok run show ?thesis by simp
qed

section \<open>Properties of the bitmap codec\<close>

lemma three_mask: "(3::byte) = mask 2"
  by (simp add: mask_eq_exp_minus_1)

lemma le3_take_bit:
  fixes s :: byte
  assumes "s \<le> 3"
  shows "take_bit 2 s = s"
proof -
  from assms have "unat s < 2 ^ 2" by (simp add: word_le_nat_alt)
  then have "take_bit 2 (unat s) = unat s" by (simp add: take_bit_nat_eq_self_iff)
  then have "unat (take_bit 2 s) = unat s" by (simp add: unsigned_take_bit_eq)
  then show ?thesis by (simp add: word_unat_eq_iff)
qed

lemma bit_cell:
  fixes w s :: byte
  assumes s: "s \<le> 3" and k: "k \<le> 6"
  shows "drop_bit k ((w AND NOT (push_bit k 3)) OR push_bit k s) AND 3 = s"
proof -
  have "take_bit 2 (drop_bit k ((w AND NOT (push_bit k (mask 2))) OR push_bit k s)) = take_bit 2 s"
    by (rule bit_word_eqI) (use k in \<open>auto simp add: bit_simps\<close>)
  then show ?thesis
    using le3_take_bit [OF s] by (simp add: three_mask take_bit_eq_mask)
qed

lemma length_gfs2_setbit [simp]: "length (gfs2_setbit buf off len b s) = length buf"
  by (simp add: gfs2_setbit_def Let_def)

lemma testbit_setbit:
  assumes "s \<le> 3" and "b div GFS2_NBBY < len" and "off + len \<le> length buf"
  shows "gfs2_testbit (gfs2_setbit buf off len b s) off len b = s"
proof -
  let ?i = "off + b div GFS2_NBBY" and ?k = "(b mod GFS2_NBBY) * 2"
  have k: "?k \<le> 6" by (simp add: GFS2_NBBY_def)
  have i: "?i < length buf" using assms by simp
  have "gfs2_setbit buf off len b s =
        buf[?i := (buf ! ?i AND NOT (push_bit ?k 3)) OR push_bit ?k s]"
    using assms(2) by (simp only: gfs2_setbit_def Let_def if_True)
  then have "gfs2_testbit (gfs2_setbit buf off len b s) off len b =
        drop_bit ?k ((buf ! ?i AND NOT (push_bit ?k 3)) OR push_bit ?k s) AND 3"
    using i by (simp only: gfs2_testbit_def nth_list_update_eq)
  also have "\<dots> = s" by (rule bit_cell [OF assms(1) k])
  finally show ?thesis .
qed

lemma bitfit_SomeD:
  assumes "gfs2_bitfit buf off len goal st = Some b"
  shows "b < len * GFS2_NBBY \<and> gfs2_testbit buf off len b = st"
  using assms
  by (auto simp: gfs2_bitfit_def find_Some_iff split: option.splits)

lemma bitfit_goal_hit:
  assumes "goal < len * GFS2_NBBY" and "gfs2_testbit buf off len goal = st"
  shows "gfs2_bitfit buf off len goal st = Some goal"
  using assms by (simp add: gfs2_bitfit_def upt_conv_Cons)

lemma bitfit_ex:
  assumes "b < len * GFS2_NBBY" and "gfs2_testbit buf off len b = st"
  shows "\<exists>b'. gfs2_bitfit buf off len goal st = Some b'"
proof (cases "find (\<lambda>b. gfs2_testbit buf off len b = st) [goal..<len * GFS2_NBBY]")
  case (Some a)
  then show ?thesis by (simp add: gfs2_bitfit_def)
next
  case None
  then have "b < goal" using assms by (auto simp: find_None_iff)
  then have "b \<in> set [0..<min goal (len * GFS2_NBBY)]" using assms by simp
  then have "find (\<lambda>b. gfs2_testbit buf off len b = st) [0..<min goal (len * GFS2_NBBY)] \<noteq> None"
    using assms(2) by (auto simp: find_None_iff simp del: set_upt)
  then show ?thesis using None by (auto simp: gfs2_bitfit_def)
qed

section \<open>Properties of rgblk_search\<close>

lemma rgblk_fit_view:
  "rgblk_fit bi goal st = gfs2_bitfit (seg_view bi) (bi_offset bi) (bi_len bi) goal st"
  by (simp add: rgblk_fit_def seg_view_def split: option.splits)

lemma rgblk_fit_SomeD:
  "rgblk_fit bi goal st = Some c \<Longrightarrow>
   c < bi_len bi * GFS2_NBBY \<and> seg_cell bi (seg_view bi) c = st"
  by (simp add: rgblk_fit_view seg_cell_def bitfit_SomeD)

lemma rgblk_fit_ex:
  "b < bi_len bi * GFS2_NBBY \<Longrightarrow> seg_cell bi (seg_view bi) b = st \<Longrightarrow>
   \<exists>c. rgblk_fit bi goal st = Some c"
  unfolding rgblk_fit_view seg_cell_def by (rule bitfit_ex)

lemma rgblk_scan_finds:
  assumes "buf < length bits" and "x + j \<le> length bits"
    and "b < bi_len (bits ! ((buf + j) mod length bits)) * GFS2_NBBY"
    and "seg_cell (bits ! ((buf + j) mod length bits))
           (seg_view (bits ! ((buf + j) mod length bits))) b = st"
  shows "\<exists>c buf' x'. rgblk_scan bits st buf goal x = (Some c, buf', x') \<and>
           x' \<le> length bits \<and> buf' < length bits \<and>
           c < bi_len (bits ! buf') * GFS2_NBBY \<and>
           seg_cell (bits ! buf') (seg_view (bits ! buf')) c = st"
  using assms
proof (induction j arbitrary: buf goal x)
  case 0
  then obtain c where c: "rgblk_fit (bits ! buf) goal st = Some c"
    using rgblk_fit_ex [of b "bits ! buf" st goal] by auto
  have "rgblk_scan bits st buf goal x = (Some c, buf, x)"
    using 0 c by (subst rgblk_scan.simps) simp
  then show ?case
    using 0 rgblk_fit_SomeD [OF c] by simp
next
  case (Suc j)
  show ?case
  proof (cases "rgblk_fit (bits ! buf) goal st")
    case (Some c)
    have "rgblk_scan bits st buf goal x = (Some c, buf, x)"
      using Suc.prems Some by (subst rgblk_scan.simps) simp
    then show ?thesis
      using Suc.prems rgblk_fit_SomeD [OF Some] by simp
  next
    case None
    let ?buf = "(buf + 1) mod length bits"
    have step: "rgblk_scan bits st buf goal x = rgblk_scan bits st ?buf 0 (Suc x)"
      using Suc.prems None by (subst rgblk_scan.simps) simp
    have idx: "(Suc buf mod length bits + j) mod length bits = Suc (buf + j) mod length bits"
      by (metis add_Suc mod_add_left_eq)
    have "0 < length bits"
      using Suc.prems(1) by arith
    then have lt: "Suc buf mod length bits < length bits"
      by (rule mod_less_divisor)
    have "\<exists>c buf' x'. rgblk_scan bits st ?buf 0 (Suc x) = (Some c, buf', x') \<and>
           x' \<le> length bits \<and> buf' < length bits \<and>
           c < bi_len (bits ! buf') * GFS2_NBBY \<and>
           seg_cell (bits ! buf') (seg_view (bits ! buf')) c = st"
      using Suc.prems lt by (intro Suc.IH) (simp_all add: idx)
    then show ?thesis by (simp add: step)
  qed
qed

lemma rgblk_goal_buf_lt:
  "i \<le> k \<Longrightarrow> k < length bits \<Longrightarrow>
   goal < u32 ((bi_start (bits ! k) + bi_len (bits ! k)) * GFS2_NBBY) \<Longrightarrow>
   rgblk_goal_buf bits goal i < length bits"
proof (induction bits goal i rule: rgblk_goal_buf.induct)
  case (1 bits goal buf)
  show ?case
  proof (cases "goal < u32 ((bi_start (bits ! buf) + bi_len (bits ! buf)) * GFS2_NBBY)")
    case True
    then show ?thesis using "1.prems" by (subst rgblk_goal_buf.simps) simp
  next
    case False
    then have "buf \<noteq> k" using "1.prems" by auto
    then have "Suc buf \<le> k" using "1.prems" by simp
    then have "rgblk_goal_buf bits goal (Suc buf) < length bits"
      using "1.prems" False by (intro "1.IH") simp_all
    then show ?thesis using "1.prems" False by (subst rgblk_goal_buf.simps) simp
  qed
qed

lemma u32_id: "x < 4294967296 \<Longrightarrow> u32 x = x"
  by (simp add: u32_def)

lemma rgblk_search_result:
  assumes scan: "rgblk_scan (rd_bits rgd) old_state (rgblk_goal_buf (rd_bits rgd) goal 0)
                   (u32_sub goal (u32 (bi_start (rd_bits rgd ! rgblk_goal_buf (rd_bits rgd) goal 0) * GFS2_NBBY))) 0
                 = (Some c, buf, x)"
    and buf0: "rgblk_goal_buf (rd_bits rgd) goal 0 < length (rd_bits rgd)"
    and x: "x \<le> length (rd_bits rgd)"
  shows "rgblk_search rgd goal old_state new_state =
     Some (u32 (bi_start (rd_bits rgd ! buf) * GFS2_NBBY + c),
           rgd\<lparr>rd_bits := (rd_bits rgd)[buf := (rd_bits rgd ! buf)
              \<lparr>bi_bh := gfs2_setbit (bi_bh (rd_bits rgd ! buf)) (bi_offset (rd_bits rgd ! buf))
                          (bi_len (rd_bits rgd ! buf)) c new_state,
               bi_clone := map_option
                  (\<lambda>cl. gfs2_setbit cl (bi_offset (rd_bits rgd ! buf)) (bi_len (rd_bits rgd ! buf)) c new_state)
                  (bi_clone (rd_bits rgd ! buf))\<rparr>]\<rparr>,
           False)"
  using buf0 x by (simp add: rgblk_search_def Let_def scan)

text \<open>
  Claim C4. Take a descriptor whose bitmap ranges lie inside their buffers and whose cell
  numbers fit \<open>uint32_t\<close>, a goal that is a cell of the group, and a new state that is a
  2-bit value. If some cell \<open>b\<close> of some segment \<open>k\<close> is in the old state in what the search
  reads (the clone when there is one, else the live buffer), then the scan loop of
  \<open>rgblk_search\<close> ends with a cell \<open>c\<close> of a segment \<open>buf\<close> at a counter \<open>x \<le> length\<close>,
  that is after at most \<open>length + 1\<close> segment scans; the function does not panic, the
  withdraw branch is not taken (the flag is \<open>False\<close>), and the result is the
  group-relative number \<open>bi_start * GFS2_NBBY + c\<close> of a cell that was in the old state and
  is in the new state in the live buffer and in the clone, when there is one. The result
  is never the not-found value.
\<close>

theorem rgblk_search_finds:
  assumes ok: "rgd_buffers_ok rgd" and fit: "rgd_cells_fit rgd"
    and goal: "goal_in_rgrp rgd goal"
    and new: "new_state \<le> 3"
    and k: "k < length (rd_bits rgd)"
    and b: "b < bi_len (rd_bits rgd ! k) * GFS2_NBBY"
    and cell: "seg_cell (rd_bits rgd ! k) (seg_view (rd_bits rgd ! k)) b = old_state"
  shows "\<exists>c buf x rgd'.
      rgblk_scan (rd_bits rgd) old_state (rgblk_goal_buf (rd_bits rgd) goal 0)
        (u32_sub goal (u32 (bi_start (rd_bits rgd ! rgblk_goal_buf (rd_bits rgd) goal 0) * GFS2_NBBY))) 0
        = (Some c, buf, x) \<and>
      x \<le> length (rd_bits rgd) \<and>
      rgblk_search rgd goal old_state new_state =
        Some (bi_start (rd_bits rgd ! buf) * GFS2_NBBY + c, rgd', False) \<and>
      buf < length (rd_bits rgd) \<and> c < bi_len (rd_bits rgd ! buf) * GFS2_NBBY \<and>
      seg_cell (rd_bits rgd ! buf) (seg_view (rd_bits rgd ! buf)) c = old_state \<and>
      length (rd_bits rgd') = length (rd_bits rgd) \<and>
      seg_cell (rd_bits rgd ! buf) (bi_bh (rd_bits rgd' ! buf)) c = new_state \<and>
      (case bi_clone (rd_bits rgd ! buf) of
         None \<Rightarrow> bi_clone (rd_bits rgd' ! buf) = None
       | Some c0 \<Rightarrow> (\<exists>c1. bi_clone (rd_bits rgd' ! buf) = Some c1 \<and>
                      seg_cell (rd_bits rgd ! buf) c1 c = new_state))"
proof -
  let ?bits = "rd_bits rgd"
  let ?n = "length ?bits"
  let ?buf0 = "rgblk_goal_buf ?bits goal 0"
  let ?goal = "u32_sub goal (u32 (bi_start (?bits ! ?buf0) * GFS2_NBBY))"
  have n: "0 < ?n" using k by arith
  have last: "last ?bits = ?bits ! (?n - 1)"
    using n by (simp add: last_conv_nth)
  have all_fit: "(bi_start (?bits ! i) + bi_len (?bits ! i)) * GFS2_NBBY < 4294967296" if "i < ?n" for i
    using fit that by (simp add: rgd_cells_fit_def list_all_length)
  have all_ok: "bitmap_ok (?bits ! i)" if "i < ?n" for i
    using ok that by (simp add: rgd_buffers_ok_def list_all_length)
  have "goal < u32 ((bi_start (?bits ! (?n - 1)) + bi_len (?bits ! (?n - 1))) * GFS2_NBBY)"
    using goal n all_fit [of "?n - 1"] by (simp add: goal_in_rgrp_def last u32_id)
  then have buf0: "?buf0 < ?n"
    using n by (intro rgblk_goal_buf_lt [of 0 "?n - 1"]) simp_all
  let ?j = "(k + ?n - ?buf0) mod ?n"
  have j: "0 + ?j \<le> ?n" using n by (simp add: less_imp_le)
  have "(?buf0 + ?j) mod ?n = (?buf0 + (k + ?n - ?buf0)) mod ?n"
    by (simp add: mod_add_right_eq)
  also have "\<dots> = (k + ?n) mod ?n" using buf0 by simp
  also have "\<dots> = k" using k by simp
  finally have idx: "(?buf0 + ?j) mod ?n = k" .
  obtain c buf x where scan: "rgblk_scan ?bits old_state ?buf0 ?goal 0 = (Some c, buf, x)"
    and x: "x \<le> ?n" and buf: "buf < ?n"
    and c: "c < bi_len (?bits ! buf) * GFS2_NBBY"
    and found: "seg_cell (?bits ! buf) (seg_view (?bits ! buf)) c = old_state"
    using rgblk_scan_finds [OF buf0 j, of b old_state ?goal] b cell unfolding idx by blast
  let ?bi = "?bits ! buf"
  let ?bi' = "?bi\<lparr>bi_bh := gfs2_setbit (bi_bh ?bi) (bi_offset ?bi) (bi_len ?bi) c new_state,
               bi_clone := map_option
                  (\<lambda>cl. gfs2_setbit cl (bi_offset ?bi) (bi_len ?bi) c new_state)
                  (bi_clone ?bi)\<rparr>"
  let ?rgd' = "rgd\<lparr>rd_bits := ?bits[buf := ?bi']\<rparr>"
  have "bi_start ?bi * GFS2_NBBY + c < 4294967296"
    using all_fit [OF buf] c by (simp add: add_mult_distrib)
  then have res: "rgblk_search rgd goal old_state new_state =
        Some (bi_start ?bi * GFS2_NBBY + c, ?rgd', False)"
    using rgblk_search_result [OF scan buf0 x, of new_state] by (simp add: u32_id)
  have cdiv: "c div GFS2_NBBY < bi_len ?bi"
    using c by (simp add: GFS2_NBBY_def less_mult_imp_div_less)
  have live: "seg_cell ?bi (bi_bh (rd_bits ?rgd' ! buf)) c = new_state"
    using all_ok [OF buf] buf new cdiv
    by (simp add: seg_cell_def bitmap_ok_def testbit_setbit)
  have clone: "(case bi_clone ?bi of
         None \<Rightarrow> bi_clone (rd_bits ?rgd' ! buf) = None
       | Some c0 \<Rightarrow> (\<exists>c1. bi_clone (rd_bits ?rgd' ! buf) = Some c1 \<and>
                      seg_cell ?bi c1 c = new_state))"
    using all_ok [OF buf] buf new cdiv
    by (auto simp: seg_cell_def bitmap_ok_def testbit_setbit split: option.splits)
  have len: "length (rd_bits ?rgd') = ?n" by simp
  from scan x res buf c found len live clone show ?thesis by blast
qed

section \<open>Evaluating the allocator on examples\<close>

lemma rgblk_search_hit:
  assumes "rgblk_goal_buf (rd_bits rgd) goal 0 = buf" and "buf < length (rd_bits rgd)"
    and "rgblk_fit (rd_bits rgd ! buf) (u32_sub goal (u32 (bi_start (rd_bits rgd ! buf) * GFS2_NBBY))) old_state = Some c"
  shows "rgblk_search rgd goal old_state new_state =
     Some (u32 (bi_start (rd_bits rgd ! buf) * GFS2_NBBY + c),
           rgd\<lparr>rd_bits := (rd_bits rgd)[buf := (rd_bits rgd ! buf)
              \<lparr>bi_bh := gfs2_setbit (bi_bh (rd_bits rgd ! buf)) (bi_offset (rd_bits rgd ! buf))
                          (bi_len (rd_bits rgd ! buf)) c new_state,
               bi_clone := map_option
                  (\<lambda>cl. gfs2_setbit cl (bi_offset (rd_bits rgd ! buf)) (bi_len (rd_bits rgd ! buf)) c new_state)
                  (bi_clone (rd_bits rgd ! buf))\<rparr>]\<rparr>,
           False)"
proof -
  have "rgblk_scan (rd_bits rgd) old_state buf
          (u32_sub goal (u32 (bi_start (rd_bits rgd ! buf) * GFS2_NBBY))) 0 = (Some c, buf, 0)"
    using assms(3) by (subst rgblk_scan.simps) simp
  then show ?thesis
    using assms(2) by (simp add: rgblk_search_def Let_def assms(1))
qed

lemma scenario_A_search:
  "rgblk_search scenario_A_rgd 0 GFS2_BLKST_FREE GFS2_BLKST_USED =
   Some (0, scenario_A_rgd\<lparr>rd_bits := [\<lparr>bi_bh = (replicate 144 0)[128 := 1], bi_clone = None,
       bi_offset = 128, bi_start = 0, bi_len = 16\<rparr>]\<rparr>, False)"
proof -
  have buf: "rgblk_goal_buf (rd_bits scenario_A_rgd) 0 0 = 0"
    by (subst rgblk_goal_buf.simps) (simp add: scenario_A_rgd_def u32_def GFS2_NBBY_def)
  have fit: "rgblk_fit (rd_bits scenario_A_rgd ! 0)
               (u32_sub 0 (u32 (bi_start (rd_bits scenario_A_rgd ! 0) * GFS2_NBBY)))
               GFS2_BLKST_FREE = Some 0"
    by (simp add: rgblk_fit_def scenario_A_rgd_def bitfit_goal_hit gfs2_testbit_def
                  u32_def u32_sub_def GFS2_NBBY_def GFS2_BLKST_FREE_def)
  show ?thesis
    by (subst rgblk_search_hit [OF buf _ fit])
       (simp_all add: scenario_A_rgd_def u32_def gfs2_setbit_def GFS2_NBBY_def GFS2_BLKST_USED_def)
qed

text \<open>
  Claim C2, as amended. For a resource group with the data blocks 100 to 163, a single
  bitmap segment of 16 bytes in which every cell is free and a header free count of 64,
  \<open>gfs2_alloc_data\<close> with the goal block 100 returns block 100, leaves the header free
  count at 63 (not 163: the group has 64 blocks), sets cell 0 to the used-data state in
  the live buffer, and does not withdraw the volume.
\<close>

theorem gfs2_alloc_data_all_free:
  assumes al: "i_alloc ip = Some al" and i: "al_rgd al = Some i" "i < length (sd_rgrpds sdp)"
    and ri: "ri_data0 (rd_ri (sd_rgrpds sdp ! i)) = 100" "ri_data (rd_ri (sd_rgrpds sdp ! i)) = 64"
    and bits: "rd_bits (sd_rgrpds sdp ! i) = [bi]"
    and bi: "bi_start bi = 0" "bi_len bi = 16" "bitmap_ok bi" "all_cells_free bi"
    and free: "rg_free (rd_rg (sd_rgrpds sdp ! i)) = 64"
    and goal: "di_goal_data ip = 100"
  shows "\<exists>sdp' ip' bi'.
     gfs2_alloc_data sdp ip = Some (100, sdp', ip') \<and>
     rg_free (rd_rg (sd_rgrpds sdp' ! i)) = 63 \<and>
     rd_bits (sd_rgrpds sdp' ! i) = [bi'] \<and>
     seg_cell bi (bi_bh bi') 0 = GFS2_BLKST_USED \<and>
     sd_withdrawn sdp' = sd_withdrawn sdp"
proof -
  let ?rgd = "sd_rgrpds sdp ! i"
  have cell0: "seg_cell bi (seg_view bi) 0 = GFS2_BLKST_FREE"
    using bi by (simp add: all_cells_free_def list_all_iff GFS2_NBBY_def)
  have buf: "rgblk_goal_buf (rd_bits ?rgd) 0 0 = 0"
    by (subst rgblk_goal_buf.simps) (simp add: bits bi u32_def GFS2_NBBY_def)
  have fit: "rgblk_fit (rd_bits ?rgd ! 0)
               (u32_sub 0 (u32 (bi_start (rd_bits ?rgd ! 0) * GFS2_NBBY))) GFS2_BLKST_FREE = Some 0"
    using cell0 bi
    by (simp add: bits rgblk_fit_view seg_cell_def bitfit_goal_hit u32_def u32_sub_def GFS2_NBBY_def)
  let ?bi' = "bi\<lparr>bi_bh := gfs2_setbit (bi_bh bi) (bi_offset bi) (bi_len bi) 0 GFS2_BLKST_USED,
               bi_clone := map_option
                  (\<lambda>cl. gfs2_setbit cl (bi_offset bi) (bi_len bi) 0 GFS2_BLKST_USED)
                  (bi_clone bi)\<rparr>"
  have search: "rgblk_search ?rgd 0 GFS2_BLKST_FREE GFS2_BLKST_USED =
      Some (0, ?rgd\<lparr>rd_bits := [?bi']\<rparr>, False)"
    by (subst rgblk_search_hit [OF buf _ fit]) (simp_all add: bits bi u32_def)
  have g: "rgrp_contains_block (rd_ri ?rgd) 100"
    by (simp add: rgrp_contains_block_def ri u64_def)
  have used: "seg_cell bi (bi_bh ?bi') 0 = GFS2_BLKST_USED"
    using bi by (simp add: seg_cell_def bitmap_ok_def testbit_setbit GFS2_BLKST_USED_def GFS2_NBBY_def)
  have "gfs2_alloc_data sdp ip =
      Some (100, alloc_commit sdp (ip\<lparr>di_goal_data := 100\<rparr>) al i
                   (?rgd\<lparr>rd_bits := [?bi'], rd_last_alloc_data := 0\<rparr>) False 0)"
    using i by (simp add: gfs2_alloc_data_def Let_def al g search ri goal u64_def u64_sub_def u32_def)
  moreover have "rg_free (rd_rg (sd_rgrpds (fst (alloc_commit sdp (ip\<lparr>di_goal_data := 100\<rparr>) al i
                   (?rgd\<lparr>rd_bits := [?bi'], rd_last_alloc_data := 0\<rparr>) False 0)) ! i)) = 63"
    and "rd_bits (sd_rgrpds (fst (alloc_commit sdp (ip\<lparr>di_goal_data := 100\<rparr>) al i
                   (?rgd\<lparr>rd_bits := [?bi'], rd_last_alloc_data := 0\<rparr>) False 0)) ! i) = [?bi']"
    and "sd_withdrawn (fst (alloc_commit sdp (ip\<lparr>di_goal_data := 100\<rparr>) al i
                   (?rgd\<lparr>rd_bits := [?bi'], rd_last_alloc_data := 0\<rparr>) False 0)) = sd_withdrawn sdp"
    using i by (simp_all add: alloc_commit_def gfs2_assert_withdraw_def free u32_sub_def)
  ultimately show ?thesis
    using used by (metis prod.collapse)
qed

lemma scenario_A_alloc1:
  "gfs2_alloc_data scenario_A_sbd scenario_A_inode = Some (100, scenario_A_sbd1, scenario_A_inode1)"
proof -
  have ri: "rd_ri scenario_A_rgd = \<lparr>ri_addr = 17, ri_data0 = 100, ri_data = 64\<rparr>"
    and rg: "rd_rg scenario_A_rgd = \<lparr>rg_free = 64, rg_dinodes = 0\<rparr>"
    and fc: "rd_free_clone scenario_A_rgd = 64"
    by (simp_all add: scenario_A_rgd_def)
  have "gfs2_alloc_data scenario_A_sbd scenario_A_inode =
     Some (100, alloc_commit scenario_A_sbd (scenario_A_inode\<lparr>di_goal_data := 100\<rparr>)
        \<lparr>al_requested = 1, al_alloced = 0, al_rgd = Some 0\<rparr> 0 
        (scenario_A_rgd\<lparr>rd_bits := [\<lparr>bi_bh = (replicate 144 0)[128 := 1], bi_clone = None,
       bi_offset = 128, bi_start = 0, bi_len = 16\<rparr>], rd_last_alloc_data := 0\<rparr>) False 0)"
    by (simp add: gfs2_alloc_data_def Let_def scenario_A_sbd_def scenario_A_inode_def ri
          rgrp_contains_block_def u64_def u64_sub_def u32_def scenario_A_search)
  then show ?thesis
    by (simp add: alloc_commit_def gfs2_assert_withdraw_def rg fc u32_def u32_sub_def
          scenario_A_sbd1_def scenario_A_inode1_def scenario_A_rgd1_def scenario_A_sbd_def
          scenario_A_inode_def scenario_A_rgd_def)
qed

lemma bitfit_next_hit:
  assumes "Suc goal < len * GFS2_NBBY" and "gfs2_testbit buf off len goal \<noteq> st"
    and "gfs2_testbit buf off len (Suc goal) = st"
  shows "gfs2_bitfit buf off len goal st = Some (Suc goal)"
  using assms by (simp add: gfs2_bitfit_def upt_conv_Cons)

lemma scenario_A_search1:
  "rgblk_search scenario_A_rgd1 0 GFS2_BLKST_FREE GFS2_BLKST_USED =
   Some (1, scenario_A_rgd1\<lparr>rd_bits := [\<lparr>bi_bh = (replicate 144 0)[128 := 5], bi_clone = None,
       bi_offset = 128, bi_start = 0, bi_len = 16\<rparr>]\<rparr>, False)"
proof -
  have buf: "rgblk_goal_buf (rd_bits scenario_A_rgd1) 0 0 = 0"
    by (subst rgblk_goal_buf.simps) (simp add: scenario_A_rgd1_def u32_def GFS2_NBBY_def)
  have fit: "rgblk_fit (rd_bits scenario_A_rgd1 ! 0)
               (u32_sub 0 (u32 (bi_start (rd_bits scenario_A_rgd1 ! 0) * GFS2_NBBY)))
               GFS2_BLKST_FREE = Some 1"
    by (simp add: rgblk_fit_def scenario_A_rgd1_def bitfit_next_hit [of 0, simplified] gfs2_testbit_def
                  u32_def u32_sub_def GFS2_NBBY_def GFS2_BLKST_FREE_def)
  show ?thesis
    by (subst rgblk_search_hit [OF buf _ fit])
       (simp_all add: scenario_A_rgd1_def u32_def gfs2_setbit_def GFS2_NBBY_def GFS2_BLKST_USED_def)
qed

lemma scenario_A_alloc2:
  "gfs2_alloc_meta scenario_A_sbd1 scenario_A_inode1 = Some (101, scenario_A_sbd2, scenario_A_inode2)"
proof -
  have ri: "rd_ri scenario_A_rgd1 = \<lparr>ri_addr = 17, ri_data0 = 100, ri_data = 64\<rparr>"
    and rg: "rd_rg scenario_A_rgd1 = \<lparr>rg_free = 63, rg_dinodes = 0\<rparr>"
    and fc: "rd_free_clone scenario_A_rgd1 = 63"
    and lm: "rd_last_alloc_meta scenario_A_rgd1 = 0"
    by (simp_all add: scenario_A_rgd1_def)
  have "gfs2_alloc_meta scenario_A_sbd1 scenario_A_inode1 =
     Some (101, alloc_commit scenario_A_sbd1 (scenario_A_inode1\<lparr>di_goal_meta := 101\<rparr>)
        \<lparr>al_requested = 1, al_alloced = 1, al_rgd = Some 0\<rparr> 0 
        (scenario_A_rgd1\<lparr>rd_bits := [\<lparr>bi_bh = (replicate 144 0)[128 := 5], bi_clone = None,
       bi_offset = 128, bi_start = 0, bi_len = 16\<rparr>], rd_last_alloc_meta := 1\<rparr>) False 0)"
    by (simp add: gfs2_alloc_meta_def Let_def scenario_A_sbd1_def scenario_A_sbd_def scenario_A_inode1_def ri lm
          rgrp_contains_block_def u64_def u64_sub_def u32_def scenario_A_search1)
  then show ?thesis
    by (simp add: alloc_commit_def gfs2_assert_withdraw_def rg fc u32_def u32_sub_def
          scenario_A_sbd2_def scenario_A_inode2_def scenario_A_rgd2_def scenario_A_sbd_def
          scenario_A_sbd1_def scenario_A_inode1_def scenario_A_rgd1_def)
qed

lemma wrap_rgd_search:
  "rgblk_search wrap_rgd 2 GFS2_BLKST_FREE GFS2_BLKST_USED =
     Some (7, wrap_rgd\<lparr>rd_bits :=
                [\<lparr>bi_bh = [0, 81], bi_clone = Some [0, 85], bi_offset = 1,
                   bi_start = 0, bi_len = 1\<rparr>,
                 \<lparr>bi_bh = [0, 85], bi_clone = None, bi_offset = 1,
                   bi_start = 1, bi_len = 1\<rparr>]\<rparr>, False)"
proof -
  have bits: "rd_bits wrap_rgd = [\<lparr>bi_bh = [0, 81], bi_clone = Some [0, 85], bi_offset = 1,
                   bi_start = 0, bi_len = 1\<rparr>,
                 \<lparr>bi_bh = [0, 21], bi_clone = None, bi_offset = 1,
                   bi_start = 1, bi_len = 1\<rparr>]"
    by (simp add: wrap_rgd_def)
  have buf: "rgblk_goal_buf (rd_bits wrap_rgd) 2 0 = 0"
    by (subst rgblk_goal_buf.simps) (simp add: bits u32_def GFS2_NBBY_def)
  have fit0: "rgblk_fit (rd_bits wrap_rgd ! 0) 2 GFS2_BLKST_FREE = None"
    by (simp add: bits rgblk_fit_def gfs2_bitfit_def gfs2_testbit_def upt_conv_Cons
                  GFS2_NBBY_def GFS2_BLKST_FREE_def)
  have fit1: "rgblk_fit (rd_bits wrap_rgd ! 1) 0 GFS2_BLKST_FREE = Some 3"
    by (simp add: bits rgblk_fit_def gfs2_bitfit_def gfs2_testbit_def upt_conv_Cons
                  GFS2_NBBY_def GFS2_BLKST_FREE_def)
  have "rgblk_scan (rd_bits wrap_rgd) GFS2_BLKST_FREE 1 0 1 = (Some 3, 1, 1)"
    using fit1 by (subst rgblk_scan.simps) (simp add: bits)
  then have "rgblk_scan (rd_bits wrap_rgd) GFS2_BLKST_FREE 0 2 0 = (Some 3, 1, 1)"
    using fit0 by (subst rgblk_scan.simps) (simp add: bits)
  then have "rgblk_scan (rd_bits wrap_rgd) GFS2_BLKST_FREE (rgblk_goal_buf (rd_bits wrap_rgd) 2 0)
                   (u32_sub 2 (u32 (bi_start (rd_bits wrap_rgd ! rgblk_goal_buf (rd_bits wrap_rgd) 2 0) * GFS2_NBBY))) 0
                 = (Some 3, 1, 1)"
    by (simp add: buf) (simp add: bits u32_def u32_sub_def)
  then show ?thesis
    by (subst rgblk_search_result [where c = 3 and buf = 1 and x = 1])
       (simp_all add: buf, simp_all add: bits u32_def gfs2_setbit_def GFS2_NBBY_def GFS2_BLKST_USED_def
           wrap_rgd_def)
qed

text \<open>
  The theorem at \<open>wrap_rgd\<close> with goal 2: the scan of the first segment finds nothing in
  the clone, the second scan finds cell 3 of the second segment, block 7 of the group.
\<close>

theorem rgblk_search_finds_witness:
  "rgd_buffers_ok wrap_rgd \<and> rgd_cells_fit wrap_rgd \<and> goal_in_rgrp wrap_rgd 2 \<and>
   GFS2_BLKST_USED \<le> 3 \<and> (1::nat) < length (rd_bits wrap_rgd) \<and>
   (3::nat) < bi_len (rd_bits wrap_rgd ! 1) * GFS2_NBBY \<and>
   seg_cell (rd_bits wrap_rgd ! 1) (seg_view (rd_bits wrap_rgd ! 1)) 3 = GFS2_BLKST_FREE \<and>
   (\<exists>c buf x rgd'.
      rgblk_scan (rd_bits wrap_rgd) GFS2_BLKST_FREE (rgblk_goal_buf (rd_bits wrap_rgd) 2 0)
        (u32_sub 2 (u32 (bi_start (rd_bits wrap_rgd ! rgblk_goal_buf (rd_bits wrap_rgd) 2 0) * GFS2_NBBY))) 0
        = (Some c, buf, x) \<and>
      x \<le> length (rd_bits wrap_rgd) \<and>
      rgblk_search wrap_rgd 2 GFS2_BLKST_FREE GFS2_BLKST_USED =
        Some (bi_start (rd_bits wrap_rgd ! buf) * GFS2_NBBY + c, rgd', False) \<and>
      seg_cell (rd_bits wrap_rgd ! buf) (bi_bh (rd_bits rgd' ! buf)) c = GFS2_BLKST_USED) \<and>
   rgblk_search wrap_rgd 2 GFS2_BLKST_FREE GFS2_BLKST_USED =
     Some (7, wrap_rgd\<lparr>rd_bits :=
                [\<lparr>bi_bh = [0, 81], bi_clone = Some [0, 85], bi_offset = 1,
                   bi_start = 0, bi_len = 1\<rparr>,
                 \<lparr>bi_bh = [0, 85], bi_clone = None, bi_offset = 1,
                   bi_start = 1, bi_len = 1\<rparr>]\<rparr>, False)"
proof -
  have h1: "rgd_buffers_ok wrap_rgd"
    by (simp add: rgd_buffers_ok_def bitmap_ok_def wrap_rgd_def)
  have h2: "rgd_cells_fit wrap_rgd"
    by (simp add: rgd_cells_fit_def wrap_rgd_def GFS2_NBBY_def)
  have h3: "goal_in_rgrp wrap_rgd 2"
    by (simp add: goal_in_rgrp_def wrap_rgd_def GFS2_NBBY_def)
  have h4: "GFS2_BLKST_USED \<le> 3"
    by (simp add: GFS2_BLKST_USED_def)
  have h5: "(1::nat) < length (rd_bits wrap_rgd)"
    by (simp add: wrap_rgd_def)
  have h6: "(3::nat) < bi_len (rd_bits wrap_rgd ! 1) * GFS2_NBBY"
    by (simp add: wrap_rgd_def GFS2_NBBY_def)
  have h7: "seg_cell (rd_bits wrap_rgd ! 1) (seg_view (rd_bits wrap_rgd ! 1)) 3 = GFS2_BLKST_FREE"
    by (simp add: wrap_rgd_def seg_cell_def seg_view_def gfs2_testbit_def GFS2_NBBY_def
                  GFS2_BLKST_FREE_def)
  have "\<exists>c buf x rgd'.
      rgblk_scan (rd_bits wrap_rgd) GFS2_BLKST_FREE (rgblk_goal_buf (rd_bits wrap_rgd) 2 0)
        (u32_sub 2 (u32 (bi_start (rd_bits wrap_rgd ! rgblk_goal_buf (rd_bits wrap_rgd) 2 0) * GFS2_NBBY))) 0
        = (Some c, buf, x) \<and>
      x \<le> length (rd_bits wrap_rgd) \<and>
      rgblk_search wrap_rgd 2 GFS2_BLKST_FREE GFS2_BLKST_USED =
        Some (bi_start (rd_bits wrap_rgd ! buf) * GFS2_NBBY + c, rgd', False) \<and>
      seg_cell (rd_bits wrap_rgd ! buf) (bi_bh (rd_bits rgd' ! buf)) c = GFS2_BLKST_USED"
    using rgblk_search_finds [OF h1 h2 h3 h4 h5 h6 h7] by blast
  with h1 h2 h3 h4 h5 h6 h7 wrap_rgd_search show ?thesis by blast
qed

lemma scenario_A_all_free: "all_cells_free (rd_bits scenario_A_rgd ! 0)"
proof -
  have "replicate 144 (0::byte) ! (128 + b div 4) = 0" if "b < 64" for b :: nat
    using that by (intro nth_replicate) arith
  then show ?thesis
    by (simp add: all_cells_free_def list_all_iff seg_cell_def seg_view_def gfs2_testbit_def
                  scenario_A_rgd_def GFS2_NBBY_def GFS2_BLKST_FREE_def)
qed

text \<open>
  Claim C2 as stated fails in scenario A: the block is 100 and cell 0 is used, but the
  header free count after the allocation is 63, not 163.
\<close>

theorem scenario_A_free_count_counterexample:
  "ri_data0 (rd_ri scenario_A_rgd) = 100 \<and> ri_data (rd_ri scenario_A_rgd) = 64 \<and>
   list_all all_cells_free (rd_bits scenario_A_rgd) \<and>
   sd_rgrpds scenario_A_sbd = [scenario_A_rgd] \<and>
   di_goal_data scenario_A_inode = 100 \<and>
   gfs2_alloc_data scenario_A_sbd scenario_A_inode =
     Some (100, scenario_A_sbd1, scenario_A_inode1) \<and>
   rg_free (rd_rg (sd_rgrpds scenario_A_sbd1 ! 0)) = 63 \<and>
   rg_free (rd_rg (sd_rgrpds scenario_A_sbd1 ! 0)) \<noteq> 163"
proof -
  have "list_all all_cells_free (rd_bits scenario_A_rgd)"
    using scenario_A_all_free by (simp add: scenario_A_rgd_def)
  then show ?thesis
    using scenario_A_alloc1
    by (simp add: scenario_A_rgd_def scenario_A_sbd_def scenario_A_inode_def
                  scenario_A_sbd1_def scenario_A_rgd1_def)
qed

text \<open>The amended claim at scenario A.\<close>

theorem gfs2_alloc_data_all_free_witness:
  "i_alloc scenario_A_inode = Some \<lparr>al_requested = 1, al_alloced = 0, al_rgd = Some 0\<rparr> \<and>
   (0::nat) < length (sd_rgrpds scenario_A_sbd) \<and>
   ri_data0 (rd_ri (sd_rgrpds scenario_A_sbd ! 0)) = 100 \<and>
   ri_data (rd_ri (sd_rgrpds scenario_A_sbd ! 0)) = 64 \<and>
   rd_bits (sd_rgrpds scenario_A_sbd ! 0) =
     [\<lparr>bi_bh = replicate 144 0, bi_clone = None, bi_offset = 128, bi_start = 0, bi_len = 16\<rparr>] \<and>
   bitmap_ok \<lparr>bi_bh = replicate 144 0, bi_clone = None, bi_offset = 128, bi_start = 0, bi_len = 16\<rparr> \<and>
   all_cells_free \<lparr>bi_bh = replicate 144 0, bi_clone = None, bi_offset = 128, bi_start = 0, bi_len = 16\<rparr> \<and>
   rg_free (rd_rg (sd_rgrpds scenario_A_sbd ! 0)) = 64 \<and>
   di_goal_data scenario_A_inode = 100 \<and>
   (\<exists>sdp' ip' bi'.
     gfs2_alloc_data scenario_A_sbd scenario_A_inode = Some (100, sdp', ip') \<and>
     rg_free (rd_rg (sd_rgrpds sdp' ! 0)) = 63 \<and>
     rd_bits (sd_rgrpds sdp' ! 0) = [bi'] \<and>
     seg_cell \<lparr>bi_bh = replicate 144 0, bi_clone = None, bi_offset = 128, bi_start = 0, bi_len = 16\<rparr>
       (bi_bh bi') 0 = GFS2_BLKST_USED \<and>
     sd_withdrawn sdp' = sd_withdrawn scenario_A_sbd)"
  (is "?h1 \<and> ?h2 \<and> ?h3 \<and> ?h4 \<and> ?h5 \<and> ?h6 \<and> ?h7 \<and> ?h8 \<and> ?h9 \<and> ?c")
proof -
  have h1: ?h1 and h1': "al_rgd \<lparr>al_requested = 1, al_alloced = 0, al_rgd = Some 0\<rparr> = Some 0"
    and h2: ?h2 and h3: ?h3 and h4: ?h4 and h5: ?h5 and h8: ?h8 and h9: ?h9
    by (simp_all add: scenario_A_inode_def scenario_A_sbd_def scenario_A_rgd_def)
  have h6: ?h6 by (simp add: bitmap_ok_def)
  have h7: ?h7 using scenario_A_all_free by (simp add: scenario_A_rgd_def)
  have ?c
    using gfs2_alloc_data_all_free [OF h1 h1' h2 h3 h4 h5 _ _ h6 h7 h8 h9] by simp
  with h1 h2 h3 h4 h5 h6 h7 h8 h9 show ?thesis by blast
qed

section \<open>The reservation counters\<close>

lemma alloc_block_counts:
  assumes "alloc_block k sdp ip = Some (blk, sdp', ip')"
  shows "\<exists>al. i_alloc ip = Some al \<and>
              i_alloc ip' = Some (al\<lparr>al_alloced := u32 (al_alloced al + 1)\<rparr>)"
proof (cases k)
  case Alloc_data
  then show ?thesis
    using assms
    by (auto simp: gfs2_alloc_data_def alloc_commit_def Let_def
             split: option.splits if_splits prod.splits)
next
  case Alloc_meta
  then show ?thesis
    using assms
    by (auto simp: gfs2_alloc_meta_def alloc_commit_def Let_def
             split: option.splits if_splits prod.splits)
next
  case Alloc_di
  then show ?thesis
    using assms
    by (auto simp: gfs2_alloc_di_def alloc_commit_def Let_def
             split: option.splits if_splits prod.splits)
qed

lemma alloc_blocks_counts:
  "alloc_blocks ks sdp ip = Some (sdp', ip') \<Longrightarrow> i_alloc ip = Some al \<Longrightarrow>
   al_alloced al < 4294967296 \<Longrightarrow>
   \<exists>al'. i_alloc ip' = Some al' \<and> al_alloced al' = u32 (al_alloced al + length ks) \<and>
         al_requested al' = al_requested al \<and> al_rgd al' = al_rgd al"
proof (induction ks arbitrary: sdp ip al)
  case Nil
  then show ?case by (simp add: u32_def)
next
  case (Cons k ks)
  then obtain blk sdp1 ip1 where step: "alloc_block k sdp ip = Some (blk, sdp1, ip1)"
    and rest: "alloc_blocks ks sdp1 ip1 = Some (sdp', ip')"
    by (auto split: option.splits)
  from alloc_block_counts [OF step] Cons.prems(2)
  have al1: "i_alloc ip1 = Some (al\<lparr>al_alloced := u32 (al_alloced al + 1)\<rparr>)" by auto
  have "al_alloced (al\<lparr>al_alloced := u32 (al_alloced al + 1)\<rparr>) < 4294967296"
    by (simp add: u32_def)
  from Cons.IH [OF rest al1 this] show ?case
    by (auto simp: u32_def mod_add_left_eq)
qed

lemma alloc_blocks_overrun:
  assumes "alloc_blocks ks sdp ip = Some (sdp', ip')" and "i_alloc ip = Some al"
    and "al_alloced al = 0" and "length ks < 4294967296"
  shows "\<exists>al'. i_alloc ip' = Some al' \<and>
              (al_alloced al' \<le> al_requested al') = (length ks \<le> al_requested al)"
  using alloc_blocks_counts [OF assms(1,2)] assms(3,4) by (auto simp: u32_def)

lemma inplace_release_overrun:
  assumes "i_alloc ip = Some al" and "\<not> al_alloced al \<le> al_requested al"
  shows "gfs2_inplace_release jiffies sdp ip =
     (if time_before jiffies (sd_last_warning sdp + sd_complain sdp)
      then Some (- 2, sdp, ip\<lparr>i_alloc := Some (al\<lparr>al_rgd := None\<rparr>)\<rparr>)
      else if ar_debug sdp then None
      else Some (- 1, sdp\<lparr>sd_last_warning := jiffies\<rparr>,
                 ip\<lparr>i_alloc := Some (al\<lparr>al_rgd := None\<rparr>)\<rparr>))"
  using assms by (simp add: gfs2_inplace_release_def gfs2_assert_warn_def)

lemma inplace_release_no_withdraw:
  assumes "gfs2_inplace_release jiffies sdp ip = Some (w, sdp', ip')"
  shows "sd_withdrawn sdp' = sd_withdrawn sdp \<and> sd_rgrpds sdp' = sd_rgrpds sdp"
  using assms
  by (auto simp: gfs2_inplace_release_def gfs2_assert_warn_def split: option.splits if_splits)

text \<open>
  Claim C6, as amended. Each single-block allocation, by \<open>gfs2_alloc_data\<close>,
  \<open>gfs2_alloc_meta\<close> or \<open>gfs2_alloc_di\<close>, increments \<open>al_alloced\<close> by one (in
  \<open>uint32_t\<close>) and never compares it with \<open>al_requested\<close>: after any sequence of \<open>n\<close>
  allocations the counter is the old one plus \<open>n\<close>, whatever was requested, so that
  under a fresh reservation consumed stays within requested exactly as long as the
  caller makes no more allocations than it requested. At release, consumed above
  requested is only a warning: nothing is done when a warning was printed recently (-2);
  otherwise the warning is printed (-1), or the kernel stops with \<open>BUG()\<close> under the debug
  mount option. The release never withdraws the volume and drops the chosen group
  either way.
\<close>

theorem reservation_accounting:
  "(alloc_blocks ks sdp ip = Some (sdp1, ip1) \<and> i_alloc ip = Some al \<and>
      al_alloced al < 4294967296 \<longrightarrow>
      (\<exists>al'. i_alloc ip1 = Some al' \<and> al_alloced al' = u32 (al_alloced al + length ks) \<and>
            al_requested al' = al_requested al \<and> al_rgd al' = al_rgd al)) \<and>
   (alloc_blocks ks sdp ip = Some (sdp1, ip1) \<and> i_alloc ip = Some al \<and>
      al_alloced al = 0 \<and> length ks < 4294967296 \<longrightarrow>
      (\<exists>al'. i_alloc ip1 = Some al' \<and>
            (al_alloced al' \<le> al_requested al') = (length ks \<le> al_requested al))) \<and>
   (i_alloc ip = Some al \<and> \<not> al_alloced al \<le> al_requested al \<longrightarrow>
      gfs2_inplace_release jiffies sdp ip =
        (if time_before jiffies (sd_last_warning sdp + sd_complain sdp)
         then Some (- 2, sdp, ip\<lparr>i_alloc := Some (al\<lparr>al_rgd := None\<rparr>)\<rparr>)
         else if ar_debug sdp then None
         else Some (- 1, sdp\<lparr>sd_last_warning := jiffies\<rparr>,
                    ip\<lparr>i_alloc := Some (al\<lparr>al_rgd := None\<rparr>)\<rparr>))) \<and>
   (gfs2_inplace_release jiffies sdp ip = Some (w, sdp2, ip2) \<longrightarrow>
      sd_withdrawn sdp2 = sd_withdrawn sdp \<and> sd_rgrpds sdp2 = sd_rgrpds sdp)"
  using alloc_blocks_counts [of ks sdp ip sdp1 ip1 al]
        alloc_blocks_overrun [of ks sdp ip sdp1 ip1 al]
        inplace_release_overrun [of ip al jiffies sdp]
        inplace_release_no_withdraw [of jiffies sdp ip w sdp2 ip2]
  by blast

lemma scenario_A_alloc_twice:
  "alloc_blocks [Alloc_data, Alloc_meta] scenario_A_sbd scenario_A_inode =
     Some (scenario_A_sbd2, scenario_A_inode2)"
  by (simp add: scenario_A_alloc1 scenario_A_alloc2)

lemma scenario_A_release:
  "gfs2_inplace_release 1000 scenario_A_sbd2 scenario_A_inode2 =
     Some (- 1, scenario_A_sbd2\<lparr>sd_last_warning := 1000\<rparr>,
           scenario_A_inode2\<lparr>i_alloc := Some \<lparr>al_requested = 1, al_alloced = 2, al_rgd = None\<rparr>\<rparr>)"
  by (simp add: gfs2_inplace_release_def gfs2_assert_warn_def time_before_def
                scenario_A_sbd2_def scenario_A_sbd_def scenario_A_inode2_def)

text \<open>
  Claim C6 as stated fails: a reservation created by \<open>gfs2_alloc_get\<close>, asking for one
  block and fitted on the group of scenario A, takes two allocations, a data block and a
  metadata block; consumed is then 2 with 1 requested, and the release returns after a
  warning, with the volume not withdrawn.
\<close>

theorem reservation_overrun_counterexample:
  "gfs2_alloc_get 1000 scenario_A_sbd (scenario_A_inode\<lparr>i_alloc := None\<rparr>) =
     Some (\<lparr>al_requested = 0, al_alloced = 0, al_rgd = None\<rparr>, scenario_A_sbd,
           scenario_A_inode\<lparr>i_alloc := Some \<lparr>al_requested = 0, al_alloced = 0, al_rgd = None\<rparr>\<rparr>) \<and>
   try_rgrp_fit scenario_A_rgd 0 \<lparr>al_requested = 1, al_alloced = 0, al_rgd = None\<rparr> =
     (1, \<lparr>al_requested = 1, al_alloced = 0, al_rgd = Some 0\<rparr>) \<and>
   i_alloc scenario_A_inode = Some \<lparr>al_requested = 1, al_alloced = 0, al_rgd = Some 0\<rparr> \<and>
   alloc_blocks [Alloc_data, Alloc_meta] scenario_A_sbd scenario_A_inode =
     Some (scenario_A_sbd2, scenario_A_inode2) \<and>
   i_alloc scenario_A_inode2 = Some \<lparr>al_requested = 1, al_alloced = 2, al_rgd = Some 0\<rparr> \<and>
   \<not> sd_withdrawn scenario_A_sbd2 \<and>
   gfs2_inplace_release 1000 scenario_A_sbd2 scenario_A_inode2 =
     Some (- 1, scenario_A_sbd2\<lparr>sd_last_warning := 1000\<rparr>,
           scenario_A_inode2\<lparr>i_alloc := Some \<lparr>al_requested = 1, al_alloced = 2, al_rgd = None\<rparr>\<rparr>) \<and>
   \<not> sd_withdrawn (scenario_A_sbd2\<lparr>sd_last_warning := 1000\<rparr>)"
  using scenario_A_alloc_twice scenario_A_release
  by (simp add: gfs2_alloc_get_def gfs2_assert_warn_def Let_def try_rgrp_fit_def
                scenario_A_rgd_def scenario_A_inode_def
                scenario_A_inode2_def scenario_A_sbd2_def scenario_A_sbd_def)

text \<open>The amended claim at the same run.\<close>

theorem reservation_accounting_witness:
  "alloc_blocks [Alloc_data, Alloc_meta] scenario_A_sbd scenario_A_inode =
     Some (scenario_A_sbd2, scenario_A_inode2) \<and>
   i_alloc scenario_A_inode = Some \<lparr>al_requested = 1, al_alloced = 0, al_rgd = Some 0\<rparr> \<and>
   (\<exists>al'. i_alloc scenario_A_inode2 = Some al' \<and> al_alloced al' = 2 \<and> al_requested al' = 1) \<and>
   (\<exists>al'. i_alloc scenario_A_inode2 = Some al' \<and> \<not> al_alloced al' \<le> al_requested al') \<and>
   i_alloc scenario_A_inode2 = Some \<lparr>al_requested = 1, al_alloced = 2, al_rgd = Some 0\<rparr> \<and>
   \<not> al_alloced \<lparr>al_requested = 1, al_alloced = 2, al_rgd = Some 0\<rparr>
       \<le> al_requested \<lparr>al_requested = 1, al_alloced = 2, al_rgd = Some 0\<rparr> \<and>
   gfs2_inplace_release 1000 scenario_A_sbd2 scenario_A_inode2 =
     Some (- 1, scenario_A_sbd2\<lparr>sd_last_warning := 1000\<rparr>,
           scenario_A_inode2\<lparr>i_alloc := Some \<lparr>al_requested = 1, al_alloced = 2, al_rgd = None\<rparr>\<rparr>) \<and>
   sd_withdrawn (scenario_A_sbd2\<lparr>sd_last_warning := 1000\<rparr>) = sd_withdrawn scenario_A_sbd2"
proof -
  have a: "alloc_blocks [Alloc_data, Alloc_meta] scenario_A_sbd scenario_A_inode =
             Some (scenario_A_sbd2, scenario_A_inode2)"
    by (rule scenario_A_alloc_twice)
  have b: "i_alloc scenario_A_inode = Some \<lparr>al_requested = 1, al_alloced = 0, al_rgd = Some 0\<rparr>"
    by (simp add: scenario_A_inode_def)
  have c: "i_alloc scenario_A_inode2 = Some \<lparr>al_requested = 1, al_alloced = 2, al_rgd = Some 0\<rparr>"
    by (simp add: scenario_A_inode2_def)
  note inst = reservation_accounting [of "[Alloc_data, Alloc_meta]" scenario_A_sbd scenario_A_inode
      scenario_A_sbd2 scenario_A_inode2 "\<lparr>al_requested = 1, al_alloced = 0, al_rgd = Some 0\<rparr>"]
  have d: "\<exists>al'. i_alloc scenario_A_inode2 = Some al' \<and> al_alloced al' = 2 \<and> al_requested al' = 1"
    using inst [THEN conjunct1] a b by (auto simp: u32_def)
  have e: "\<exists>al'. i_alloc scenario_A_inode2 = Some al' \<and> \<not> al_alloced al' \<le> al_requested al'"
    using inst [THEN conjunct2, THEN conjunct1] a b by auto
  show ?thesis
    using a b c d e scenario_A_release by simp
qed

section \<open>The scan of the full list\<close>

lemma next_wrap_mod: "r < n \<Longrightarrow> rgrpd_next_wrap n r = Suc r mod n"
  by (auto simp: rgrpd_next_wrap_def mod_Suc)

lemma order_next: "b < n \<Longrightarrow> rgrpd_next_wrap n ((b + i) mod n) = (b + Suc i) mod n"
  by (simp add: next_wrap_mod mod_Suc_eq)

lemma order_not_begin:
  fixes b j n :: nat
  assumes "b < n" and "0 < j" and "j < n"
  shows "(b + j) mod n \<noteq> b"
proof (cases "b + j < n")
  case True
  then show ?thesis using assms by simp
next
  case False
  then have "(b + j) mod n = b + j - n"
    using assms by (simp add: mod_if)
  then show ?thesis using assms False by simp
qed

lemma full_list_loop_circuit:
  assumes b: "b < length rgds"
  shows "i < length rgds \<Longrightarrow>
   full_list_loop nq rgds al b ((b + i) mod length rgds) flags sk l t =
     (case circuit nq rgds al flags (map (\<lambda>j. (b + j) mod length rgds) [i..<length rgds]) sk t of
        (CFound g al', t') \<Rightarrow> Some (0, Some g, al', t')
      | (CAbort e, t') \<Rightarrow> Some (e, None, al, t')
      | (CDone sk', t') \<Rightarrow>
          if 2 \<le> Suc l \<or> sk' = 0 then Some (- ENOSPC, None, al, t')
          else full_list_loop nq rgds al b b 0 sk' (Suc l) t')"
proof (induction "length rgds - i" arbitrary: i sk t)
  case 0
  then show ?case by simp
next
  case (Suc k)
  let ?n = "length rgds"
  let ?rgd = "(b + i) mod ?n"
  have i: "i < ?n" by fact
  have "0 < ?n" using b by arith
  then have rgd: "?rgd < ?n" by (rule mod_less_divisor)
  have upt: "[i..<?n] = i # [Suc i..<?n]" using i by (simp add: upt_conv_Cons)
  show ?case
  proof (cases "Suc i < ?n")
    case True
    have k: "k = ?n - Suc i" using Suc.hyps(2) by simp
    have nb: "(b + Suc i) mod ?n \<noteq> b"
      using order_not_begin [OF b _ True] by simp
    note IH = Suc.hyps(1) [OF k True, unfolded add_Suc_right]
    show ?thesis
      apply (subst full_list_loop.simps)
      apply (simp only: upt list.map circuit.simps)
      using rgd b nb
      apply (simp add: Let_def order_next [OF b] IH GLR_TRYFAILED_def del: upt_Suc)
      done
  next
    case False
    then have last: "Suc i = ?n" using i by simp
    have "(b + Suc i) mod ?n = b" using last b by simp
    then have wrap: "Suc (b + i) mod ?n = b" by simp
    have nil: "[Suc i..<?n] = []" using last by simp
    show ?thesis
      apply (subst full_list_loop.simps)
      apply (simp only: upt nil list.map circuit.simps)
      using rgd b
      apply (simp add: Let_def order_next [OF b] wrap GLR_TRYFAILED_def del: upt_Suc)
      done
  qed
qed

lemma circuit_time:
  "circuit nq rgds al flags gs sk t = (r, t') \<Longrightarrow> t \<le> t' \<and> t' \<le> t + length gs"
proof (induction gs arbitrary: sk t)
  case Nil
  then show ?case by simp
next
  case (Cons g gs)
  show ?case
  proof (cases "(nq t g flags = 0 \<and> fst (try_rgrp_fit (rgds ! g) g al) \<noteq> 0) \<or>
                (nq t g flags \<noteq> 0 \<and> nq t g flags \<noteq> GLR_TRYFAILED)")
    case True
    then show ?thesis using Cons.prems by (auto simp: Let_def split: if_splits)
  next
    case False
    then have "circuit nq rgds al flags gs
             (if nq t g flags = GLR_TRYFAILED then Suc sk else sk) (Suc t) = (r, t')"
      using Cons.prems by (auto simp: Let_def split: if_splits)
    from Cons.IH [OF this] show ?thesis by simp
  qed
qed

lemma two_circuit_time:
  "two_circuit_scan nq rgds al b t = (e, g, al', t') \<Longrightarrow>
   t \<le> t' \<and> t' \<le> t + 2 * length rgds"
proof -
  assume r: "two_circuit_scan nq rgds al b t = (e, g, al', t')"
  obtain r1 t1 where c1: "circuit nq rgds al LM_FLAG_TRY (circuit_order (length rgds) b) 0 t = (r1, t1)"
    by (cases "circuit nq rgds al LM_FLAG_TRY (circuit_order (length rgds) b) 0 t")
  have b1: "t \<le> t1 \<and> t1 \<le> t + length rgds"
    using circuit_time [OF c1] by (simp add: circuit_order_def)
  show ?thesis
  proof (cases r1)
    case (CFound x al1)
    then show ?thesis using r c1 b1 by (simp add: two_circuit_scan_def)
  next
    case (CAbort x)
    then show ?thesis using r c1 b1 by (simp add: two_circuit_scan_def)
  next
    case (CDone sk)
    show ?thesis
    proof (cases "sk = 0")
      case True
      then show ?thesis using r c1 b1 CDone by (simp add: two_circuit_scan_def)
    next
      case False
      obtain r2 t2 where c2: "circuit nq rgds al 0 (circuit_order (length rgds) b) sk t1 = (r2, t2)"
        by (cases "circuit nq rgds al 0 (circuit_order (length rgds) b) sk t1")
      have b2: "t1 \<le> t2 \<and> t2 \<le> t1 + length rgds"
        using circuit_time [OF c2] by (simp add: circuit_order_def)
      show ?thesis
        using r c1 c2 b1 b2 CDone False
        by (cases r2) (auto simp: two_circuit_scan_def)
    qed
  qed
qed

lemma full_list_loop_start:
  assumes b: "b < length rgds"
  shows "full_list_loop nq rgds al b b flags sk l t =
     (case circuit nq rgds al flags (circuit_order (length rgds) b) sk t of
        (CFound g al', t') \<Rightarrow> Some (0, Some g, al', t')
      | (CAbort e, t') \<Rightarrow> Some (e, None, al, t')
      | (CDone sk', t') \<Rightarrow>
          if 2 \<le> Suc l \<or> sk' = 0 then Some (- ENOSPC, None, al, t')
          else full_list_loop nq rgds al b b 0 sk' (Suc l) t')"
proof -
  have "0 < length rgds" using b by arith
  from full_list_loop_circuit [OF b this, of nq al flags sk l t] b
  show ?thesis by (simp add: circuit_order_def)
qed

text \<open>
  Claim C1, as amended. Started at a group \<open>begin\<close> of the index, the scan of the full
  list returns (it neither panics nor runs on), and its result is that of
  \<open>two_circuit_scan\<close>: a first circuit with non-blocking locks that counts the skipped
  groups; when that circuit completes with no skip the scan fails with \<open>-ENOSPC\<close>; when
  it completes with a skip exactly one more circuit is made with blocking locks, and the
  scan fails with \<open>-ENOSPC\<close> when that one completes too. A circuit ends early at the
  first group that is locked and fits, which is chosen, and at the first lock error
  other than a failed try, which is returned as it is. The scan makes at most
  \<open>2 * length rgds\<close> lock attempts, two full circuits.
\<close>

theorem full_list_scan_two_circuits:
  assumes "begin_rgd < length rgds"
  shows "full_list_loop nq rgds al begin_rgd begin_rgd LM_FLAG_TRY 0 0 t =
           Some (two_circuit_scan nq rgds al begin_rgd t) \<and>
         t \<le> snd (snd (snd (two_circuit_scan nq rgds al begin_rgd t))) \<and>
         snd (snd (snd (two_circuit_scan nq rgds al begin_rgd t))) \<le> t + 2 * length rgds"
proof -
  obtain e g al' t' where r: "two_circuit_scan nq rgds al begin_rgd t = (e, g, al', t')"
    by (cases "two_circuit_scan nq rgds al begin_rgd t")
  have time: "t \<le> t' \<and> t' \<le> t + 2 * length rgds"
    by (rule two_circuit_time [OF r])
  have "full_list_loop nq rgds al begin_rgd begin_rgd LM_FLAG_TRY 0 0 t =
           Some (two_circuit_scan nq rgds al begin_rgd t)"
    by (simp add: full_list_loop_start [OF assms] two_circuit_scan_def
             split: prod.splits circuit_result.splits)
  then show ?thesis using r time by simp
qed

lemma recent_add_loop_iff:
  "recent_add_loop rs new_rgd count mx =
     (new_rgd \<notin> set rs \<and> (rs = [] \<or> count + length rs < mx))"
  by (induction rs arbitrary: count) auto

text \<open>
  Claim C1 as stated fails: with two groups that have no room and a lock layer that
  answers \<open>-EIO\<close>, no circuit finds a group, and the scan fails at the first attempt with
  \<open>-EIO\<close>, not with \<open>-ENOSPC\<close>.
\<close>

theorem full_list_scan_lock_error_counterexample:
  "fst (try_rgrp_fit (scan_rgd 10 0) 0 three_blocks) = 0 \<and>
   fst (try_rgrp_fit (scan_rgd 20 0) 1 three_blocks) = 0 \<and>
   full_list_loop eio_nq [scan_rgd 10 0, scan_rgd 20 0] three_blocks 0 0 LM_FLAG_TRY 0 0 0 =
     Some (- EIO, None, three_blocks, 1) \<and>
   - EIO \<noteq> - ENOSPC"
  by (subst full_list_loop.simps)
     (simp add: try_rgrp_fit_def scan_rgd_def three_blocks_def eio_nq_def EIO_def ENOSPC_def
                GLR_TRYFAILED_def)

text \<open>
  Three groups of which only group 1 has room, the scan starting at group 1: the first
  circuit skips the contended groups 1 and 0 and finds no room in group 2; the second,
  with blocking locks, takes group 1 at the fourth attempt.
\<close>

theorem full_list_scan_two_circuits_witness:
  "(1::nat) < length [scan_rgd 10 0, scan_rgd 20 5, scan_rgd 30 0] \<and>
   full_list_loop contended_nq [scan_rgd 10 0, scan_rgd 20 5, scan_rgd 30 0] three_blocks
       1 1 LM_FLAG_TRY 0 0 0 =
     Some (0, Some 1, three_blocks\<lparr>al_rgd := Some 1\<rparr>, 4) \<and>
   circuit contended_nq [scan_rgd 10 0, scan_rgd 20 5, scan_rgd 30 0] three_blocks LM_FLAG_TRY
       [1, 2, 0] 0 0 = (CDone 2, 3)"
proof -
  have h: "(1::nat) < length [scan_rgd 10 0, scan_rgd 20 5, scan_rgd 30 0]" by simp
  have ord: "circuit_order (length [scan_rgd 10 0, scan_rgd 20 5, scan_rgd 30 0]) 1 = [1, 2, 0]"
    by (simp add: circuit_order_def upt_conv_Cons)
  have c1: "circuit contended_nq [scan_rgd 10 0, scan_rgd 20 5, scan_rgd 30 0] three_blocks
       LM_FLAG_TRY [1, 2, 0] 0 0 = (CDone 2, 3)"
    by (simp add: contended_nq_def try_rgrp_fit_def scan_rgd_def three_blocks_def
                  LM_FLAG_TRY_def GLR_TRYFAILED_def)
  have c2: "circuit contended_nq [scan_rgd 10 0, scan_rgd 20 5, scan_rgd 30 0] three_blocks
       0 [1, 2, 0] 2 3 = (CFound 1 (three_blocks\<lparr>al_rgd := Some 1\<rparr>), 4)"
    by (simp add: contended_nq_def try_rgrp_fit_def scan_rgd_def three_blocks_def
                  LM_FLAG_TRY_def GLR_TRYFAILED_def)
  have "two_circuit_scan contended_nq [scan_rgd 10 0, scan_rgd 20 5, scan_rgd 30 0] three_blocks 1 0
          = (0, Some 1, three_blocks\<lparr>al_rgd := Some 1\<rparr>, 4)"
    unfolding two_circuit_scan_def ord c1 prod.case circuit_result.case c2 by simp
  with full_list_scan_two_circuits [OF h, of contended_nq three_blocks 0] c1 h
  show ?thesis by simp
qed

section \<open>The recent list and the forward cursor\<close>

lemma recent_rgrp_add_list:
  assumes "0 < sd_journals sdp"
  shows "recent_rgrp_add sdp rgd =
     Some (if rgd \<notin> set (sd_rindex_recent_list sdp) \<and>
              (sd_rindex_recent_list sdp = [] \<or>
               length (sd_rindex_recent_list sdp) < sd_rgrps sdp div sd_journals sdp)
           then sdp\<lparr>sd_rindex_recent_list := sd_rindex_recent_list sdp @ [rgd]\<rparr>
           else sdp)"
  using assms by (simp add: recent_rgrp_add_def recent_add_loop_iff Let_def)

text \<open>
  Claim C9, as amended. After a group was chosen by the scan of the full list, the code
  at \<open>out\<close> appends it to the tail of the recent list only when it is not on the list
  yet and the list is empty or shorter than total groups divided by journals; otherwise
  the list stays as it is, and no entry is evicted. A list within the bound (or of one
  entry) stays within it. The forward cursor is set to the group after the chosen one,
  the first group after the last, and the inode remembers the address of the chosen
  group.
\<close>

theorem recent_list_after_forward_scan:
  assumes "0 < sd_journals sdp"
  shows "\<exists>sdp' ip'.
     get_local_rgrp_out sdp ip al rgd True = Some (0, sdp', ip') \<and>
     sd_rindex_recent_list sdp' =
       (if rgd \<notin> set (sd_rindex_recent_list sdp) \<and>
           (sd_rindex_recent_list sdp = [] \<or>
            length (sd_rindex_recent_list sdp) < sd_rgrps sdp div sd_journals sdp)
        then sd_rindex_recent_list sdp @ [rgd]
        else sd_rindex_recent_list sdp) \<and>
     (length (sd_rindex_recent_list sdp) \<le> max 1 (sd_rgrps sdp div sd_journals sdp) \<longrightarrow>
        length (sd_rindex_recent_list sdp') \<le> max 1 (sd_rgrps sdp div sd_journals sdp)) \<and>
     sd_rindex_forward sdp' = Some (if Suc rgd < length (sd_rgrpds sdp) then Suc rgd else 0) \<and>
     i_alloc ip' = Some al \<and>
     i_last_rg_alloc ip' = ri_addr (rd_ri (sd_rgrpds sdp ! rgd))"
  by (auto simp: get_local_rgrp_out_def recent_rgrp_add_list [OF assms] forward_rgrp_set_def
                 rgrpd_next_wrap_def Let_def)

lemma full_recent_recent_phase:
  "recent_loop recent_busy_nq full_recent_sbd three_blocks (Some 0) 0 =
     Some (RDone, full_recent_sbd, three_blocks, 2)"
proof -
  have n0: "recent_rgrp_next full_recent_sbd 0 False = (Some (Suc 0), full_recent_sbd)"
    and n1: "recent_rgrp_next full_recent_sbd (Suc 0) False = (None, full_recent_sbd)"
    by (simp_all add: recent_rgrp_next_def full_recent_sbd_def)
  have "recent_loop recent_busy_nq full_recent_sbd three_blocks None (Suc (Suc 0)) =
          Some (RDone, full_recent_sbd, three_blocks, Suc (Suc 0))"
    by (subst recent_loop.simps) simp
  then have "recent_loop recent_busy_nq full_recent_sbd three_blocks (Some (Suc 0)) (Suc 0) =
          Some (RDone, full_recent_sbd, three_blocks, Suc (Suc 0))"
    by (subst recent_loop.simps)
       (simp add: recent_busy_nq_def LM_FLAG_TRY_def GLR_TRYFAILED_def n1)
  then have "recent_loop recent_busy_nq full_recent_sbd three_blocks (Some 0) 0 =
          Some (RDone, full_recent_sbd, three_blocks, Suc (Suc 0))"
    by (subst recent_loop.simps)
       (simp add: recent_busy_nq_def LM_FLAG_TRY_def GLR_TRYFAILED_def n0)
  then show ?thesis by (simp add: numeral_2_eq_2)
qed

text \<open>
  Claim C9 as stated fails: four groups, two journals, the recent list [0, 1] at its
  bound of 2, both entries contended. \<open>get_local_rgrp\<close> chooses group 2 by the scan of
  the full list; the recent list is [0, 1] afterwards: group 2 is not at its tail and
  the oldest entry 0 was not evicted.
\<close>

theorem recent_list_full_counterexample:
  "get_local_rgrp recent_busy_nq full_recent_sbd full_recent_inode =
     Some (0, full_recent_sbd\<lparr>sd_rindex_forward := Some 3\<rparr>,
           full_recent_inode\<lparr>i_alloc := Some (three_blocks\<lparr>al_rgd := Some 2\<rparr>),
                              i_last_rg_alloc := 30\<rparr>) \<and>
   sd_rindex_recent_list (full_recent_sbd\<lparr>sd_rindex_forward := Some 3\<rparr>) = [0, 1] \<and>
   sd_rgrps full_recent_sbd div sd_journals full_recent_sbd = 2"
proof -
  have al: "i_alloc full_recent_inode = Some three_blocks"
    and last: "i_last_rg_alloc full_recent_inode = 0"
    by (simp_all add: full_recent_inode_def)
  have first: "recent_rgrp_first full_recent_sbd 0 = Some 0"
    by (simp add: recent_rgrp_first_def full_recent_sbd_def)
  have fwd: "forward_rgrp_get full_recent_sbd = Some (2, full_recent_sbd)"
    by (simp add: forward_rgrp_get_def full_recent_sbd_def)
  have scan: "full_list_loop recent_busy_nq (sd_rgrpds full_recent_sbd) three_blocks 2 2
                 LM_FLAG_TRY 0 0 2 = Some (0, Some 2, three_blocks\<lparr>al_rgd := Some 2\<rparr>, 3)"
    by (subst full_list_loop.simps)
       (simp add: full_recent_sbd_def recent_busy_nq_def try_rgrp_fit_def scan_rgd_def
                  three_blocks_def numeral_3_eq_3)
  have out: "get_local_rgrp_out full_recent_sbd full_recent_inode
               (three_blocks\<lparr>al_rgd := Some 2\<rparr>) 2 True =
     Some (0, full_recent_sbd\<lparr>sd_rindex_forward := Some 3\<rparr>,
           full_recent_inode\<lparr>i_alloc := Some (three_blocks\<lparr>al_rgd := Some 2\<rparr>),
                              i_last_rg_alloc := 30\<rparr>)"
    by (simp add: get_local_rgrp_out_def recent_rgrp_add_def forward_rgrp_set_def
                  rgrpd_next_wrap_def full_recent_sbd_def scan_rgd_def Let_def)
  have "get_local_rgrp recent_busy_nq full_recent_sbd full_recent_inode =
     Some (0, full_recent_sbd\<lparr>sd_rindex_forward := Some 3\<rparr>,
           full_recent_inode\<lparr>i_alloc := Some (three_blocks\<lparr>al_rgd := Some 2\<rparr>),
                              i_last_rg_alloc := 30\<rparr>)"
    by (simp add: get_local_rgrp_def al last first full_recent_recent_phase fwd scan out)
  then show ?thesis by (simp add: full_recent_sbd_def)
qed

text \<open>
  The amended claim at the same state, where the list stays as it is, and at the state
  with the recent list [0], where group 2 is appended.
\<close>

theorem recent_list_after_forward_scan_witness:
  "0 < sd_journals full_recent_sbd \<and>
   (\<exists>sdp' ip'.
     get_local_rgrp_out full_recent_sbd full_recent_inode (three_blocks\<lparr>al_rgd := Some 2\<rparr>) 2 True
       = Some (0, sdp', ip') \<and>
     sd_rindex_recent_list sdp' = [0, 1] \<and>
     sd_rindex_forward sdp' = Some 3 \<and>
     i_last_rg_alloc ip' = 30) \<and>
   0 < sd_journals short_recent_sbd \<and>
   (\<exists>sdp' ip'.
     get_local_rgrp_out short_recent_sbd full_recent_inode (three_blocks\<lparr>al_rgd := Some 2\<rparr>) 2 True
       = Some (0, sdp', ip') \<and>
     sd_rindex_recent_list sdp' = [0, 2] \<and>
     length (sd_rindex_recent_list sdp') \<le> sd_rgrps short_recent_sbd div sd_journals short_recent_sbd \<and>
     sd_rindex_forward sdp' = Some 3 \<and>
     i_last_rg_alloc ip' = 30)"
proof -
  have h: "0 < sd_journals full_recent_sbd" by (simp add: full_recent_sbd_def)
  have r: "sd_rindex_recent_list full_recent_sbd = [0, 1]"
    and len: "length (sd_rgrpds full_recent_sbd) = 4"
    and addr: "ri_addr (rd_ri (sd_rgrpds full_recent_sbd ! 2)) = 30"
    and mx: "sd_rgrps full_recent_sbd div sd_journals full_recent_sbd = 2"
    by (simp_all add: full_recent_sbd_def scan_rgd_def)
  from recent_list_after_forward_scan [OF h, of full_recent_inode "three_blocks\<lparr>al_rgd := Some 2\<rparr>" 2]
  obtain sdp' ip' where
    "get_local_rgrp_out full_recent_sbd full_recent_inode (three_blocks\<lparr>al_rgd := Some 2\<rparr>) 2 True
       = Some (0, sdp', ip')"
    and "sd_rindex_recent_list sdp' = [0, 1]"
    and "sd_rindex_forward sdp' = Some 3"
    and "i_last_rg_alloc ip' = 30"
    unfolding r len addr mx by auto
  then have full: "\<exists>sdp' ip'.
     get_local_rgrp_out full_recent_sbd full_recent_inode (three_blocks\<lparr>al_rgd := Some 2\<rparr>) 2 True
       = Some (0, sdp', ip') \<and>
     sd_rindex_recent_list sdp' = [0, 1] \<and>
     sd_rindex_forward sdp' = Some 3 \<and>
     i_last_rg_alloc ip' = 30" by blast
  have hs: "0 < sd_journals short_recent_sbd"
    by (simp add: short_recent_sbd_def full_recent_sbd_def)
  have rs: "sd_rindex_recent_list short_recent_sbd = [0]"
    and lens: "length (sd_rgrpds short_recent_sbd) = 4"
    and addrs: "ri_addr (rd_ri (sd_rgrpds short_recent_sbd ! 2)) = 30"
    and mxs: "sd_rgrps short_recent_sbd div sd_journals short_recent_sbd = 2"
    by (simp_all add: short_recent_sbd_def full_recent_sbd_def scan_rgd_def)
  from recent_list_after_forward_scan [OF hs, of full_recent_inode "three_blocks\<lparr>al_rgd := Some 2\<rparr>" 2]
  obtain sdp2 ip2 where
    "get_local_rgrp_out short_recent_sbd full_recent_inode (three_blocks\<lparr>al_rgd := Some 2\<rparr>) 2 True
       = Some (0, sdp2, ip2)"
    and "sd_rindex_recent_list sdp2 = [0, 2]"
    and "sd_rindex_forward sdp2 = Some 3"
    and "i_last_rg_alloc ip2 = 30"
    unfolding rs lens addrs mxs by auto
  then have short: "\<exists>sdp' ip'.
     get_local_rgrp_out short_recent_sbd full_recent_inode (three_blocks\<lparr>al_rgd := Some 2\<rparr>) 2 True
       = Some (0, sdp', ip') \<and>
     sd_rindex_recent_list sdp' = [0, 2] \<and>
     length (sd_rindex_recent_list sdp') \<le> sd_rgrps short_recent_sbd div sd_journals short_recent_sbd \<and>
     sd_rindex_forward sdp' = Some 3 \<and>
     i_last_rg_alloc ip' = 30" using mxs by auto
  from h full hs short show ?thesis by blast
qed

section \<open>The walk over an attribute block\<close>

lemma ea_foreach_loop_invalid:
  "\<not> ea_record_ok bh ea \<Longrightarrow>
   ea_foreach_loop ea_call bh ea prev data calls = (- EIO, bh, data, True, calls)"
  by (subst ea_foreach_loop.simps) (auto simp: ea_record_ok_def)

lemma ea_foreach_loop_valid:
  "ea_record_ok bh ea \<Longrightarrow>
   ea_foreach_loop ea_call bh ea prev data calls =
     (case ea_call data bh ea prev of
        (error, blk, data') \<Rightarrow>
          if error \<noteq> 0 then (error, bh\<lparr>b_ea := blk\<rparr>, data', False, calls @ [(ea, b_ea bh ea)])
          else if GFS2_EA_IS_LAST (blk ea)
          then (if ea + GFS2_EA_REC_LEN (blk ea) \<noteq> b_size bh
                then (- EIO, bh\<lparr>b_ea := blk\<rparr>, data', True, calls @ [(ea, b_ea bh ea)])
                else (error, bh\<lparr>b_ea := blk\<rparr>, data', False, calls @ [(ea, b_ea bh ea)]))
          else ea_foreach_loop ea_call (bh\<lparr>b_ea := blk\<rparr>) (ea + GFS2_EA_REC_LEN (blk ea))
                 (Some ea) data' (calls @ [(ea, b_ea bh ea)]))"
  by (subst ea_foreach_loop.simps) (simp add: ea_record_ok_def)

lemma ea_foreach_loop_calls:
  "ea_foreach_loop ea_call bh ea prev data calls = (e, bh', d', c, calls') \<Longrightarrow>
   b_size bh' = b_size bh \<and>
   (\<exists>new. calls' = calls @ new \<and> list_all (ea_visit_ok (b_size bh)) new)"
proof (induction ea_call bh ea prev data calls arbitrary: e bh' d' c calls'
       rule: ea_foreach_loop.induct)
  case (1 ea_call bh ea prev data calls)
  show ?case
  proof (cases "ea_record_ok bh ea")
    case False
    then show ?thesis
      using "1.prems" by (simp add: ea_foreach_loop_invalid)
  next
    case True
    obtain error blk data'' where call: "ea_call data bh ea prev = (error, blk, data'')"
      by (cases "ea_call data bh ea prev")
    have ok: "ea_visit_ok (b_size bh) (ea, b_ea bh ea)"
      using True by (simp add: ea_visit_ok_def ea_record_ok_def)
    show ?thesis
    proof (cases "error \<noteq> 0 \<or> GFS2_EA_IS_LAST (blk ea)")
      case stop: True
      have "calls' = calls @ [(ea, b_ea bh ea)] \<and> b_size bh' = b_size bh"
        using "1.prems" True call stop
        by (subst (asm) ea_foreach_loop.simps) (auto simp: ea_record_ok_def split: if_splits)
      then show ?thesis using ok by simp
    next
      case go: False
      have rec: "ea_foreach_loop ea_call (bh\<lparr>b_ea := blk\<rparr>) (ea + GFS2_EA_REC_LEN (blk ea))
                   (Some ea) data'' (calls @ [(ea, b_ea bh ea)]) = (e, bh', d', c, calls')"
        using "1.prems" True call go
        by (subst (asm) ea_foreach_loop.simps) (auto simp: ea_record_ok_def split: if_splits)
      have "b_size bh' = b_size (bh\<lparr>b_ea := blk\<rparr>) \<and>
            (\<exists>new. calls' = (calls @ [(ea, b_ea bh ea)]) @ new \<and>
                   list_all (ea_visit_ok (b_size (bh\<lparr>b_ea := blk\<rparr>))) new)"
        using True go call
        by (intro "1.IH" [OF _ _ _ call [symmetric] refl _ _ rec])
           (auto simp: ea_record_ok_def)
      then obtain new where "calls' = calls @ (ea, b_ea bh ea) # new"
        and "list_all (ea_visit_ok (b_size bh)) new" and "b_size bh' = b_size bh"
        by auto
      then show ?thesis using ok by (intro conjI exI [of _ "(ea, b_ea bh ea) # new"]) simp_all
    qed
  qed
qed

lemma ea_foreach_loop_consist:
  "ea_foreach_loop ea_call bh ea prev data calls = (e, bh', d', c, calls') \<Longrightarrow> c \<Longrightarrow> e = - EIO"
proof (induction ea_call bh ea prev data calls arbitrary: e bh' d' c calls'
       rule: ea_foreach_loop.induct)
  case (1 ea_call bh ea prev data calls)
  show ?case
  proof (cases "ea_record_ok bh ea")
    case False
    then show ?thesis
      using "1.prems" by (simp add: ea_foreach_loop_invalid)
  next
    case True
    obtain error blk data'' where call: "ea_call data bh ea prev = (error, blk, data'')"
      by (cases "ea_call data bh ea prev")
    note step = ea_foreach_loop_valid [OF True, of ea_call prev data, unfolded call prod.case]
    show ?thesis
    proof (cases "error \<noteq> 0 \<or> GFS2_EA_IS_LAST (blk ea)")
      case stop: True
      then show ?thesis
        using "1.prems" by (auto simp: step split: if_splits)
    next
      case go: False
      have rec: "ea_foreach_loop ea_call (bh\<lparr>b_ea := blk\<rparr>) (ea + GFS2_EA_REC_LEN (blk ea))
                   (Some ea) data'' (calls @ [(ea, b_ea bh ea)]) = (e, bh', d', c, calls')"
        using "1.prems"(1) go by (simp add: step)
      show ?thesis
        using True go call "1.prems"(2)
        by (intro "1.IH" [OF _ _ _ call [symmetric] refl _ _ rec])
           (auto simp: ea_record_ok_def)
    qed
  qed
qed

text \<open>
  Claim C5. In every walk of \<open>ea_foreach_i\<close> over one attribute block, each record on
  which the callback is called has passed the three checks before the call: its length is
  not 0, it ends inside the block, and its type is a recognized one. At a record that
  fails a check the walk stops with \<open>-EIO\<close> and a consistency error; the callback is
  not called on that record, so the private data and the trace are as they were. A
  consistency error is only ever reported together with \<open>-EIO\<close>.
\<close>

theorem ea_foreach_i_validates:
  "(ea_foreach_i ea_call bh data = (e, bh', d', c, calls) \<longrightarrow>
      list_all (ea_visit_ok (b_size bh)) calls \<and> (c \<longrightarrow> e = - EIO)) \<and>
   (\<not> ea_record_ok bh0 ea \<longrightarrow>
      ea_foreach_loop ea_call bh0 ea prev d0 calls0 = (- EIO, bh0, d0, True, calls0))"
proof (intro conjI impI)
  assume run: "ea_foreach_i ea_call bh data = (e, bh', d', c, calls)"
  show "list_all (ea_visit_ok (b_size bh)) calls"
  proof (cases "gfs2_metatype_check bh GFS2_METATYPE_EA")
    case True
    then show ?thesis using run by (simp add: ea_foreach_i_def)
  next
    case False
    then have "ea_foreach_loop ea_call bh sizeof_gfs2_meta_header None data [] =
                 (e, bh', d', c, calls)"
      using run by (simp add: ea_foreach_i_def)
    from ea_foreach_loop_calls [OF this] show ?thesis by simp
  qed
  assume c
  show "e = - EIO"
  proof (cases "gfs2_metatype_check bh GFS2_METATYPE_EA")
    case True
    then show ?thesis using run by (simp add: ea_foreach_i_def)
  next
    case False
    then have "ea_foreach_loop ea_call bh sizeof_gfs2_meta_header None data [] =
                 (e, bh', d', c, calls)"
      using run by (simp add: ea_foreach_i_def)
    from ea_foreach_loop_consist [OF this \<open>c\<close>] show ?thesis .
  qed
next
  assume "\<not> ea_record_ok bh0 ea"
  then show "ea_foreach_loop ea_call bh0 ea prev d0 calls0 = (- EIO, bh0, d0, True, calls0)"
    by (rule ea_foreach_loop_invalid)
qed

lemma corrupt_ea_block_walk:
  "ea_foreach_i count_call corrupt_ea_block 0 =
     (- EIO, corrupt_ea_block, 1, True, [(24, ea_foo_header)])"
proof -
  have ok: "ea_record_ok corrupt_ea_block 24"
    by (simp add: ea_record_ok_def corrupt_ea_block_def ea_foo_header_def GFS2_EA_REC_LEN_def
                  GFS2_EATYPE_VALID_def GFS2_EATYPE_LAST_def)
  have call: "count_call 0 corrupt_ea_block 24 None = (0, b_ea corrupt_ea_block, 1)"
    by (simp add: count_call_def)
  have bad: "\<not> ea_record_ok corrupt_ea_block 56"
    by (simp add: ea_record_ok_def corrupt_ea_block_def ea_unused_header_def GFS2_EA_REC_LEN_def)
  have at: "b_ea corrupt_ea_block 24 = ea_foo_header"
    by (simp add: corrupt_ea_block_def)
  have "ea_foreach_loop count_call corrupt_ea_block 24 None 0 [] =
          (- EIO, corrupt_ea_block, 1, True, [(24, ea_foo_header)])"
    unfolding ea_foreach_loop_valid [OF ok] call prod.case at
    by (simp add: ea_foreach_loop_invalid [OF bad] ea_foo_header_def GFS2_EA_IS_LAST_def
                  GFS2_EAFLAG_LAST_def GFS2_EA_REC_LEN_def)
  then show ?thesis
    by (simp add: ea_foreach_i_def gfs2_metatype_check_def GFS2_MAGIC_def GFS2_METATYPE_EA_def
                  sizeof_gfs2_meta_header_def corrupt_ea_block_def)
qed

text \<open>
  The block with a record of length 0 at offset 56: the callback sees the record at
  offset 24 and nothing else.
\<close>

theorem ea_foreach_i_validates_witness:
  "ea_foreach_i count_call corrupt_ea_block 0 =
     (- EIO, corrupt_ea_block, 1, True, [(24, ea_foo_header)]) \<and>
   list_all (ea_visit_ok (b_size corrupt_ea_block)) [(24, ea_foo_header)] \<and>
   \<not> ea_record_ok corrupt_ea_block 56 \<and>
   ea_foreach_loop count_call corrupt_ea_block 56 (Some 24) 1 [(24, ea_foo_header)] =
     (- EIO, corrupt_ea_block, 1, True, [(24, ea_foo_header)])"
proof -
  have bad: "\<not> ea_record_ok corrupt_ea_block 56"
    by (simp add: ea_record_ok_def corrupt_ea_block_def ea_unused_header_def GFS2_EA_REC_LEN_def)
  from ea_foreach_i_validates [of count_call corrupt_ea_block 0 "- EIO" corrupt_ea_block 1 True
      "[(24, ea_foo_header)]" corrupt_ea_block 56 "Some 24" 1 "[(24, ea_foo_header)]"]
    corrupt_ea_block_walk bad
  show ?thesis by simp
qed

section \<open>Searching leaves the store as it is\<close>







lemma ea_normalize_id:
  "er_data er \<noteq> None \<Longrightarrow> er_data_len er \<noteq> 0 \<Longrightarrow> ea_normalize er = er"
  by (simp add: ea_normalize_def)











section \<open>Get with an empty buffer\<close>










section \<open>Set and its flags\<close>




section \<open>Set of an oversized value\<close>

text \<open>
  Claim C7 as stated fails: a value of 70000 bytes under a name of length 0 fails with
  \<open>-EINVAL\<close>, not with \<open>-ERANGE\<close>; the name length is checked before the size.
\<close>

theorem gfs2_ea_set_name_first_counterexample:
  "GFS2_EA_MAX_DATA_LEN < er_data_len unnamed_request \<and>
   gfs2_ea_set 4072 grant_nq release_dq refuse_eo_set foo_state unnamed_request =
     (- EINVAL, unnamed_request, foo_state) \<and>
   - EINVAL \<noteq> - ERANGE"
  by (simp add: gfs2_ea_set_def unnamed_request_def big_request_def GFS2_EA_MAX_DATA_LEN_def
                EINVAL_def ERANGE_def)

text \<open>
  Claim C7, amended. A Set request with a name length from 1 to 255 and a non-null
  value longer than the maximum fails with \<open>-ERANGE\<close> in the size check: the result
  does not depend on the lock layer or on the handler, which are not called, and the
  state and the request are unchanged.
\<close>

theorem gfs2_ea_set_oversized:
  assumes "er_name_len er \<noteq> 0" and "er_name_len er \<le> GFS2_EA_MAX_NAME_LEN"
    and "er_data er \<noteq> None" and "GFS2_EA_MAX_DATA_LEN < er_data_len er"
  shows "gfs2_ea_set jbsize nq dq eo_set st er = (- ERANGE, er, st)"
proof -
  have "er_data_len er \<noteq> 0" using assms(4) by auto
  then have norm: "ea_normalize er = er" using assms(3) by (simp add: ea_normalize_id)
  have "ea_check_size jbsize er = - ERANGE" using assms(4) by (simp add: ea_check_size_def)
  then show ?thesis
    using assms(1,2) norm by (simp add: gfs2_ea_set_def ERANGE_def)
qed

text \<open>
  The value of 70000 bytes under the name \<open>bar\<close>.
\<close>

theorem gfs2_ea_set_oversized_witness:
  "er_name_len big_request \<noteq> 0 \<and> er_name_len big_request \<le> GFS2_EA_MAX_NAME_LEN \<and>
   er_data big_request \<noteq> None \<and> GFS2_EA_MAX_DATA_LEN < er_data_len big_request \<and>
   gfs2_ea_set 4072 grant_nq release_dq refuse_eo_set foo_state big_request =
     (- ERANGE, big_request, foo_state)"
proof -
  have h: "er_name_len big_request \<noteq> 0" "er_name_len big_request \<le> GFS2_EA_MAX_NAME_LEN"
    "er_data big_request \<noteq> None" "GFS2_EA_MAX_DATA_LEN < er_data_len big_request"
    by (simp_all add: big_request_def GFS2_EA_MAX_NAME_LEN_def GFS2_EA_MAX_DATA_LEN_def)
  from gfs2_ea_set_oversized [OF h, of 4072 grant_nq release_dq refuse_eo_set foo_state] h
  show ?thesis by simp
qed

end
